theory Spec2Isabelle
  imports Main "HOL-Library.Word"
begin

section \<open>The Rhizome fetch engine of serval-dna (rhizome\_fetch.c)\<close>

text \<open>
  A shallow embedding of the fetch scheduler of \<^verbatim>\<open>src/rhizome_fetch.c\<close>.
  C structs are records, pointers to manifests are addresses into a heap of manifest
  records (\<open>None\<close> is \<^verbatim>\<open>NULL\<close>), the static arrays are lists, and every
  function that changes a global takes the program state and returns the new one.
  Calls that leave the file (the database, the clock, the sockets, the manifest library)
  are fields of an environment record: each takes the state of the outside world and
  returns its result with the new world, so nothing is assumed about them.
\<close>

subsection \<open>Data\<close>

type_synonym byte = "8 word"
type_synonym bytes = "byte list"

text \<open>\<^verbatim>\<open>struct sockaddr_in\<close>: only the fields the file reads.\<close>

record sockaddr_in =
  sin_family :: nat
  sin_port :: nat
  sin_addr :: nat

definition AF_INET :: nat where
  "AF_INET = 2"

text \<open>
  \<^verbatim>\<open>rhizome_manifest\<close> (declared in rhizome.h): the fields rhizome\_fetch.c reads or
  writes. \<open>var_id\<close> and \<open>var_version\<close> are what \<^verbatim>\<open>rhizome_manifest_get(m, "id", ...)\<close>
  and \<^verbatim>\<open>rhizome_manifest_get_ll(m, "version")\<close> return for the manifest's variables.
\<close>

record rhizome_manifest =
  cryptoSignPublic :: bytes
  var_id :: "string option"
  var_version :: int
  version :: int
  fileLength :: int
  fileHashedP :: bool
  fileHexHash :: string
  selfSigned :: bool
  ttl :: int
  finalised :: bool
  manifest_bytes :: int
  manifest_all_bytes :: int
  dataFileName :: "string option"
  dataFileUnlinkOnFree :: bool

text \<open>\<^verbatim>\<open>struct rhizome_fetch_candidate\<close>; \<open>manifest\<close> is a pointer, \<open>None\<close> an empty element.\<close>

record rhizome_fetch_candidate =
  manifest :: "nat option"
  peer_ipandport :: sockaddr_in
  peer_sid :: bytes
  priority :: int

datatype fetch_state_code =
  RHIZOME_FETCH_FREE
  | RHIZOME_FETCH_CONNECTING
  | RHIZOME_FETCH_SENDINGHTTPREQUEST
  | RHIZOME_FETCH_RXHTTPHEADERS
  | RHIZOME_FETCH_RXFILE
  | RHIZOME_FETCH_RXFILEMDP

datatype alarm_function = No_function | Fn_rhizome_fetch_poll | Fn_rhizome_fetch_mdp_slot_callback

datatype poll_event = POLLIN | POLLOUT

text \<open>
  \<^verbatim>\<open>struct rhizome_fetch_slot\<close>. The embedded \<^verbatim>\<open>struct sched_ent alarm\<close> is flattened
  into the \<open>alarm_\<close> fields; \<open>alarm_watched\<close> and \<open>alarm_scheduled\<close> say whether the
  poller currently watches the descriptor and holds the alarm (what \<^verbatim>\<open>watch\<close>,
  \<^verbatim>\<open>unwatch\<close>, \<^verbatim>\<open>schedule\<close> and \<^verbatim>\<open>unschedule\<close> change). \<open>slot_file\<close> (the field \<^verbatim>\<open>file\<close>) is the open
  stream, named by its path. The staging buffer \<^verbatim>\<open>mdpRXWindow\<close> is never read or
  written by the file and is left out.
\<close>

record rhizome_fetch_slot =
  alarm_fd :: int
  alarm_events :: "poll_event set"
  alarm_function :: alarm_function
  alarm_alarm :: int
  alarm_deadline :: int
  alarm_watched :: bool
  alarm_scheduled :: bool
  slot_manifest :: "nat option"
  slot_peer_ipandport :: sockaddr_in
  slot_peer_sid :: bytes
  state :: fetch_state_code
  slot_file :: "string option"
  filename :: string
  file_len :: "64 word"
  file_ofs :: "64 word"
  request :: string
  request_len :: int
  request_ofs :: int
  bid :: bytes
  bidVersion :: int
  bidP :: int
  prefix :: bytes
  prefix_length :: int
  mdpNextTX :: int
  mdpLastRX :: int
  mdpIdleTimeout :: int
  mdpRXWindowStart :: "64 word"
  mdpRXBlockLength :: int
  mdpRXBitmap :: "32 word"

text \<open>
  \<^verbatim>\<open>struct rhizome_fetch_queue\<close>. \<^verbatim>\<open>candidate_queue_size\<close> is the length of the
  array \<open>candidate_queue\<close>.
\<close>

record rhizome_fetch_queue =
  active :: rhizome_fetch_slot
  candidate_queue :: "rhizome_fetch_candidate list"
  size_threshold :: int

abbreviation candidate_queue_size :: "rhizome_fetch_queue \<Rightarrow> nat" where
  "candidate_queue_size q \<equiv> length (candidate_queue q)"


text \<open>
  \<^verbatim>\<open>struct ignored_manifest\<close>, an entry of the ignore cache.
\<close>

record ignored_manifest =
  ign_bid :: bytes
  ign_peer_ipandport :: sockaddr_in
  ign_peer_sid :: bytes
  ign_timeout :: int

text \<open>
  The MDP frame handed to \<^verbatim>\<open>overlay_mdp_dispatch\<close>: the \<^verbatim>\<open>out\<close> member of
  \<^verbatim>\<open>overlay_mdp_frame\<close>. \<open>out_payload\<close> holds the first \<open>out_payload_length\<close> bytes of the
  payload buffer, the bytes that make up the datagram.
\<close>

datatype mdp_port = MDP_PORT_RHIZOME_REQUEST | MDP_PORT_RHIZOME_RESPONSE

datatype mdp_queue = OQ_ORDINARY

datatype mdp_type = MDP_TX

record overlay_mdp_frame =
  packetTypeAndFlags :: mdp_type
  out_src_sid :: bytes
  out_src_port :: mdp_port
  out_dst_sid :: bytes
  out_dst_port :: mdp_port
  out_ttl :: nat
  out_queue :: mdp_queue
  out_payload_length :: nat
  out_payload :: bytes

subsection \<open>The outside world\<close>

datatype sql_query = Select_manifest_version string | Select_file_count string

datatype connect_result = Connect_ok | Connect_einprogress | Connect_failed

text \<open>
  The functions rhizome\_fetch.c calls and does not define. Each takes the world and returns
  its C result with the world after the call.
  \<^item> \<open>sqlite_exec_int64\<close> returns its return value and, when it assigned one, the value
    it stored through its first argument.
  \<^item> \<open>form_rhizome_import_path\<close> is the macro \<^verbatim>\<open>FORM_RHIZOME_IMPORT_PATH\<close>: the path, or
    \<open>None\<close> when it does not fit.
  \<^item> \<open>rhizome_new_manifest\<close> returns the address of a new manifest or \<open>None\<close>;
    \<open>rhizome_read_manifest_file\<close> the manifest read, or \<open>None\<close> for \<^verbatim>\<open>-1\<close>.
  \<^item> \<open>fopen\<close> (mode \<^verbatim>\<open>"w"\<close>) says whether the stream was opened; \<open>fwrite\<close> returns the
    number of items written.
  \<^item> \<open>RHIZOME_IDLE_TIMEOUT\<close> (rhizome.h) and \<open>rhizome_fetch_delay_ms\<close> are configuration.
\<close>

record 'w env =
  sqlite_exec_int64 :: "sql_query \<Rightarrow> 'w \<Rightarrow> (int \<times> int option) \<times> 'w"
  rhizome_bundle_import :: "rhizome_manifest \<Rightarrow> int \<Rightarrow> 'w \<Rightarrow> int \<times> 'w"
  rhizome_add_manifest :: "rhizome_manifest \<Rightarrow> int \<Rightarrow> 'w \<Rightarrow> int \<times> 'w"
  rhizome_manifest_verify :: "rhizome_manifest \<Rightarrow> 'w \<Rightarrow> int \<times> 'w"
  rhizome_new_manifest :: "'w \<Rightarrow> nat option \<times> 'w"
  rhizome_read_manifest_file :: "string \<Rightarrow> 'w \<Rightarrow> rhizome_manifest option \<times> 'w"
  gettime_ms :: "'w \<Rightarrow> int \<times> 'w"
  c_random :: "'w \<Rightarrow> nat \<times> 'w"
  create_rhizome_import_dir :: "'w \<Rightarrow> int \<times> 'w"
  form_rhizome_import_path :: "string \<Rightarrow> string option"
  fopen :: "string \<Rightarrow> 'w \<Rightarrow> bool \<times> 'w"
  fwrite :: "string \<Rightarrow> bytes \<Rightarrow> 'w \<Rightarrow> nat \<times> 'w"
  socket :: "'w \<Rightarrow> int \<times> 'w"
  set_nonblock :: "int \<Rightarrow> 'w \<Rightarrow> int \<times> 'w"
  connect :: "int \<Rightarrow> sockaddr_in \<Rightarrow> 'w \<Rightarrow> connect_result \<times> 'w"
  my_subscriber_sid :: bytes
  rhizome_fetch_delay_ms :: int
  RHIZOME_IDLE_TIMEOUT :: int

subsection \<open>The program state\<close>

text \<open>
  The globals of the file (\<open>rhizome_fetch_queues\<close>, \<open>ignored\<close>, \<open>sched_activate\<close>), the
  manifests the pointers refer to (\<open>heap\<close>), and what the calls without a result leave
  behind: the manifests released by \<^verbatim>\<open>rhizome_manifest_free\<close> (\<open>freed\<close>), the paths of
  the scratch files that exist (\<open>fs\<close>: added by a successful \<^verbatim>\<open>fopen\<close>, removed by
  \<^verbatim>\<open>unlink\<close>), the data of each \<^verbatim>\<open>fwrite\<close> that wrote its item (\<open>fwritten\<close>, with
  the stream), the streams closed (\<open>fclosed\<close>), the descriptors closed (\<open>closed_fds\<close>) and the
  frames dispatched (\<open>mdp_dispatched\<close>), each in call order.
\<close>

record 'w fetch_state =
  world :: 'w
  rhizome_fetch_queues :: "rhizome_fetch_queue list"
  heap :: "nat \<Rightarrow> rhizome_manifest"
  freed :: "nat list"
  ignored :: "nat \<Rightarrow> nat \<Rightarrow> ignored_manifest"
  fs :: "string set"
  fwritten :: "(string \<times> bytes) list"
  fclosed :: "string list"
  closed_fds :: "int list"
  mdp_dispatched :: "overlay_mdp_frame list"
  sched_activate_scheduled :: bool
  sched_activate_alarm :: int
  sched_activate_deadline :: int

text \<open>
  What stops a run short of a return: a failed \<^verbatim>\<open>assert\<close>, the use of a \<^verbatim>\<open>NULL\<close>
  manifest or stream, a read past the end of a buffer, or the recursion budget of this model running out (the C functions
  \<^verbatim>\<open>rhizome_fetch_close\<close>, \<^verbatim>\<open>rhizome_start_next_queued_fetch\<close>, \<^verbatim>\<open>rhizome_fetch\<close>,
  \<^verbatim>\<open>schedule_fetch\<close>, \<^verbatim>\<open>rhizome_fetch_switch_to_mdp\<close> and
  \<^verbatim>\<open>rhizome_fetch_mdp_requestblocks\<close> call each other in a cycle).
\<close>

datatype fault = Assertion_failed | Null_pointer | Out_of_bounds | Out_of_fuel

definition bindf :: "fault + 'a \<Rightarrow> ('a \<Rightarrow> fault + 'b) \<Rightarrow> fault + 'b" where
  "bindf x f = (case x of Inl e \<Rightarrow> Inl e | Inr v \<Rightarrow> f v)"

definition NQUEUES :: "'w fetch_state \<Rightarrow> nat" where
  "NQUEUES s = length (rhizome_fetch_queues s)"

definition ext :: "('w \<Rightarrow> 'a \<times> 'w) \<Rightarrow> 'w fetch_state \<Rightarrow> 'a \<times> 'w fetch_state" where
  "ext f s = (case f (world s) of (r, w) \<Rightarrow> (r, s\<lparr>world := w\<rparr>))"

definition slot_of :: "'w fetch_state \<Rightarrow> nat \<Rightarrow> rhizome_fetch_slot" where
  "slot_of s k = active (rhizome_fetch_queues s ! k)"

definition slot_update ::
  "nat \<Rightarrow> (rhizome_fetch_slot \<Rightarrow> rhizome_fetch_slot) \<Rightarrow> 'w fetch_state \<Rightarrow> 'w fetch_state" where
  "slot_update k f s =
     s\<lparr>rhizome_fetch_queues :=
         (rhizome_fetch_queues s)[k := (rhizome_fetch_queues s ! k)\<lparr>active := f (slot_of s k)\<rparr>]\<rparr>"

definition queue_of :: "'w fetch_state \<Rightarrow> nat \<Rightarrow> rhizome_fetch_candidate list" where
  "queue_of s q = candidate_queue (rhizome_fetch_queues s ! q)"

definition queue_update ::
  "nat \<Rightarrow> (rhizome_fetch_candidate list \<Rightarrow> rhizome_fetch_candidate list) \<Rightarrow>
   'w fetch_state \<Rightarrow> 'w fetch_state" where
  "queue_update q f s =
     s\<lparr>rhizome_fetch_queues :=
         (rhizome_fetch_queues s)[q := (rhizome_fetch_queues s ! q)\<lparr>candidate_queue := f (queue_of s q)\<rparr>]\<rparr>"

text \<open>\<^verbatim>\<open>rhizome_manifest_free\<close> (rhizome.h): the release is recorded.\<close>

definition rhizome_manifest_free :: "nat \<Rightarrow> 'w fetch_state \<Rightarrow> 'w fetch_state" where
  "rhizome_manifest_free p s = s\<lparr>freed := freed s @ [p]\<rparr>"

subsection \<open>The static queues\<close>

definition zero_sockaddr :: sockaddr_in where
  "zero_sockaddr = \<lparr>sin_family = 0, sin_port = 0, sin_addr = 0\<rparr>"

definition zero_candidate :: rhizome_fetch_candidate where
  "zero_candidate =
     \<lparr>manifest = None, peer_ipandport = zero_sockaddr, peer_sid = replicate 32 0, priority = 0\<rparr>"

definition zero_slot :: rhizome_fetch_slot where
  "zero_slot =
     \<lparr>alarm_fd = 0, alarm_events = {}, alarm_function = No_function, alarm_alarm = 0,
      alarm_deadline = 0, alarm_watched = False, alarm_scheduled = False,
      slot_manifest = None, slot_peer_ipandport = zero_sockaddr,
      slot_peer_sid = replicate 32 0, state = RHIZOME_FETCH_FREE, slot_file = None,
      filename = [], file_len = 0, file_ofs = 0, request = [], request_len = 0,
      request_ofs = 0, bid = replicate 32 0, bidVersion = 0, bidP = 0,
      prefix = replicate 32 0, prefix_length = 0, mdpNextTX = 0, mdpLastRX = 0,
      mdpIdleTimeout = 0, mdpRXWindowStart = 0, mdpRXBlockLength = 0, mdpRXBitmap = 0\<rparr>"

text \<open>
  The initialiser of \<^verbatim>\<open>rhizome_fetch_queues[]\<close>: five queues over the arrays
  \<^verbatim>\<open>queue0[5]\<close> ... \<^verbatim>\<open>queue4[1]\<close>, in order of ascending threshold, the last one
  unbounded (\<^verbatim>\<open>-1\<close>).
\<close>

definition static_fetch_queues :: "rhizome_fetch_queue list" where
  "static_fetch_queues =
     [\<lparr>active = zero_slot, candidate_queue = replicate 5 zero_candidate, size_threshold = 10000\<rparr>,
      \<lparr>active = zero_slot, candidate_queue = replicate 4 zero_candidate, size_threshold = 100000\<rparr>,
      \<lparr>active = zero_slot, candidate_queue = replicate 3 zero_candidate, size_threshold = 1000000\<rparr>,
      \<lparr>active = zero_slot, candidate_queue = replicate 2 zero_candidate, size_threshold = 10000000\<rparr>,
      \<lparr>active = zero_slot, candidate_queue = replicate 1 zero_candidate, size_threshold = - 1\<rparr>]"

text \<open>
  The state at program start: the static initialisers, zeroed storage for \<^verbatim>\<open>ignored\<close>,
  nothing released, written or sent yet.
\<close>

definition zero_ignored :: ignored_manifest where
  "zero_ignored = \<lparr>ign_bid = replicate 32 0, ign_peer_ipandport = zero_sockaddr,
                    ign_peer_sid = replicate 32 0, ign_timeout = 0\<rparr>"

definition initial_state :: "'w \<Rightarrow> (nat \<Rightarrow> rhizome_manifest) \<Rightarrow> 'w fetch_state" where
  "initial_state w h =
     \<lparr>world = w, rhizome_fetch_queues = static_fetch_queues, heap = h, freed = [],
      ignored = (\<lambda>bin slot. zero_ignored), fs = {}, fwritten = [], fclosed = [], closed_fds = [],
      mdp_dispatched = [], sched_activate_scheduled = False, sched_activate_alarm = 0,
      sched_activate_deadline = 0\<rparr>"

definition zero_manifest :: rhizome_manifest where
  "zero_manifest =
     \<lparr>cryptoSignPublic = replicate 32 0, var_id = None, var_version = 0, version = 0,
      fileLength = 0, fileHashedP = False, fileHexHash = [], selfSigned = False, ttl = 0,
      finalised = False, manifest_bytes = 0, manifest_all_bytes = 0, dataFileName = None,
      dataFileUnlinkOnFree = False\<rparr>"

subsection \<open>Queue selection\<close>

text \<open>
  \<^verbatim>\<open>rhizome_find_queue\<close>: the loop \<^verbatim>\<open>for (i = 0; i < NQUEUES; ++i)\<close> returns the first
  queue with \<^verbatim>\<open>q->size_threshold < 0 || size < q->size_threshold\<close>, and \<^verbatim>\<open>NULL\<close>
  after the loop.
\<close>

function find_queue_from :: "rhizome_fetch_queue list \<Rightarrow> int \<Rightarrow> nat \<Rightarrow> nat option" where
  "find_queue_from qs sz i =
     (if i < length qs then
        (if size_threshold (qs ! i) < 0 \<or> sz < size_threshold (qs ! i) then Some i
         else find_queue_from qs sz (i + 1))
      else None)"
  by pat_completeness auto
termination
  by (relation "measure (\<lambda>(qs, sz, i). length qs - i)") auto

definition rhizome_find_queue :: "rhizome_fetch_queue list \<Rightarrow> int \<Rightarrow> nat option" where
  "rhizome_find_queue qs sz = find_queue_from qs sz 0"

declare find_queue_from.simps [simp del]


subsection \<open>Candidate queues\<close>

text \<open>
  \<^verbatim>\<open>rhizome_fetch_insert(q, i)\<close>. With \<open>c\<close> the index \<open>i\<close> and \<open>e\<close> an index that starts at
  the last element:
  \<^verbatim>\<open>if (e->manifest) rhizome_manifest_free(e->manifest); else while (e > c && !e[-1].manifest) --e;\<close>
  (\<open>insert_find_end\<close> is the while loop), then
  \<^verbatim>\<open>for (; e > c; --e) e[0] = e[-1];\<close> (\<open>insert_shift\<close>), then
  \<^verbatim>\<open>c->manifest = NULL; return c;\<close>. The element returned is the one at index \<open>i\<close>.
\<close>

function insert_find_end :: "rhizome_fetch_candidate list \<Rightarrow> nat \<Rightarrow> nat \<Rightarrow> nat" where
  "insert_find_end cq c e =
     (if c < e \<and> manifest (cq ! (e - 1)) = None then insert_find_end cq c (e - 1) else e)"
  by pat_completeness auto
termination
  by (relation "measure (\<lambda>(cq, c, e). e)") auto

function insert_shift ::
  "rhizome_fetch_candidate list \<Rightarrow> nat \<Rightarrow> nat \<Rightarrow> rhizome_fetch_candidate list" where
  "insert_shift cq c e = (if c < e then insert_shift (cq[e := cq ! (e - 1)]) c (e - 1) else cq)"
  by pat_completeness auto
termination
  by (relation "measure (\<lambda>(cq, c, e). e)") auto

declare insert_find_end.simps [simp del] insert_shift.simps [simp del]

definition rhizome_fetch_insert :: "nat \<Rightarrow> nat \<Rightarrow> 'w fetch_state \<Rightarrow> fault + 'w fetch_state" where
  "rhizome_fetch_insert q i s =
     (let cq = queue_of s q; e = length cq - 1 in
      if \<not> i < length cq then Inl Assertion_failed
      else if \<not> (i = 0 \<or> manifest (cq ! (i - 1)) \<noteq> None) then Inl Assertion_failed
      else
        (case manifest (cq ! e) of
           Some p \<Rightarrow>
             Inr (queue_update q
                   (\<lambda>cq. (insert_shift cq i e)[i := (insert_shift cq i e ! i)\<lparr>manifest := None\<rparr>])
                   (rhizome_manifest_free p s))
         | None \<Rightarrow>
             let e1 = insert_find_end cq i e in
             Inr (queue_update q
                   (\<lambda>cq. (insert_shift cq i e1)[i := (insert_shift cq i e1 ! i)\<lparr>manifest := None\<rparr>])
                   s)))"

text \<open>
  \<^verbatim>\<open>rhizome_fetch_unqueue(q, i)\<close>: frees the manifest of element \<open>i\<close> if it has one, then
  \<^verbatim>\<open>for (; c < e && c[1].manifest; ++c) c[0] = c[1]; c->manifest = NULL;\<close>
  with \<open>e\<close> the last element (\<open>unqueue_shift\<close>).
\<close>

function unqueue_shift ::
  "rhizome_fetch_candidate list \<Rightarrow> nat \<Rightarrow> rhizome_fetch_candidate list" where
  "unqueue_shift cq c =
     (if c < length cq - 1 \<and> manifest (cq ! (c + 1)) \<noteq> None
      then unqueue_shift (cq[c := cq ! (c + 1)]) (c + 1)
      else cq[c := (cq ! c)\<lparr>manifest := None\<rparr>])"
  by pat_completeness auto
termination
  by (relation "measure (\<lambda>(cq, c). length cq - c)") auto

declare unqueue_shift.simps [simp del]

definition rhizome_fetch_unqueue :: "nat \<Rightarrow> nat \<Rightarrow> 'w fetch_state \<Rightarrow> fault + 'w fetch_state" where
  "rhizome_fetch_unqueue q i s =
     (let cq = queue_of s q in
      if \<not> i < length cq then Inl Assertion_failed
      else
        Inr (queue_update q (\<lambda>cq. unqueue_shift (cq[i := (cq ! i)\<lparr>manifest := None\<rparr>]) i)
              (case manifest (cq ! i) of Some p \<Rightarrow> rhizome_manifest_free p s | None \<Rightarrow> s)))"

text \<open>
  The candidates a queue holds are the elements before its first empty one; this is what
  every loop over a queue visits (each stops at the first element without a manifest).
  A queue is contiguous when no element after the first empty one has a manifest.
\<close>

definition has_manifest :: "rhizome_fetch_candidate \<Rightarrow> bool" where
  "has_manifest c = (manifest c \<noteq> None)"

definition queued :: "rhizome_fetch_candidate list \<Rightarrow> rhizome_fetch_candidate list" where
  "queued cq = takeWhile has_manifest cq"

definition contiguous :: "rhizome_fetch_candidate list \<Rightarrow> bool" where
  "contiguous cq = list_all (\<lambda>c. \<not> has_manifest c) (dropWhile has_manifest cq)"

subsection \<open>The manifest version cache\<close>

text \<open>
  The macro \<^verbatim>\<open>WHY\<close> (log.h) logs its message and has the value \<^verbatim>\<open>-1\<close>; every
  \<^verbatim>\<open>return WHY(...)\<close> of the file is the error return its comments call \<^verbatim>\<open>-1\<close>.
\<close>

definition WHY :: int where
  "WHY = - 1"

definition toupper :: "char \<Rightarrow> char" where
  "toupper c = (if 97 \<le> (of_char c :: nat) \<and> (of_char c :: nat) \<le> 122
                then char_of ((of_char c :: nat) - 32) else c)"

definition tolower :: "char \<Rightarrow> char" where
  "tolower c = (if 65 \<le> (of_char c :: nat) \<and> (of_char c :: nat) \<le> 90
                then char_of ((of_char c :: nat) + 32) else c)"

definition str_toupper_inplace :: "string \<Rightarrow> string" where
  "str_toupper_inplace str = map toupper str"

text \<open>
  \<^verbatim>\<open>rhizome_manifest_version_cache_lookup\<close>. The function returns before it reaches its
  in-memory cache (\<^verbatim>\<open>// skip the cache for now\<close>): all that runs is
  \<^verbatim>\<open>
  if (!rhizome_manifest_get(m, "id", id, sizeof id)) return WHY(...);
  str_toupper_inplace(id);
  m->version = rhizome_manifest_get_ll(m, "version");
  long long dbVersion = -1;
  if (sqlite_exec_int64(&dbVersion, "SELECT version FROM MANIFESTS WHERE id='%s';", id) == -1)
    return WHY("Select failure");
  if (dbVersion >= m->version) return -1;
  return 0;
  \<close>
  The statements after \<^verbatim>\<open>return 0\<close> (the only ones that return \<^verbatim>\<open>-2\<close>) cannot run and
  have no counterpart here.
\<close>

definition rhizome_manifest_version_cache_lookup ::
  "'w env \<Rightarrow> nat \<Rightarrow> 'w fetch_state \<Rightarrow> int \<times> 'w fetch_state" where
  "rhizome_manifest_version_cache_lookup env m s =
     (case var_id (heap s m) of
        None \<Rightarrow> (WHY, s)
      | Some id0 \<Rightarrow>
          (let s1 = s\<lparr>heap := (heap s)(m := (heap s m)\<lparr>version := var_version (heap s m)\<rparr>)\<rparr> in
           case ext (sqlite_exec_int64 env (Select_manifest_version (str_toupper_inplace id0))) s1 of
             ((ret, val), s2) \<Rightarrow>
               (let dbVersion = (case val of Some v \<Rightarrow> v | None \<Rightarrow> - 1) in
                if ret = - 1 then (WHY, s2)
                else if dbVersion \<ge> version (heap s2 m) then (- 1, s2)
                else (0, s2))))"

subsection \<open>The ignore cache\<close>


definition SID_SIZE :: nat where
  "SID_SIZE = 32"

definition RHIZOME_MANIFEST_ID_BYTES :: nat where
  "RHIZOME_MANIFEST_ID_BYTES = 32"


text \<open>\<^verbatim>\<open>memcmp(a, b, n) == 0\<close> (and \<^verbatim>\<open>!bcmp(a, b, n)\<close>).\<close>

definition memcmp_eq :: "bytes \<Rightarrow> bytes \<Rightarrow> nat \<Rightarrow> bool" where
  "memcmp_eq a b n = (take n a = take n b)"





subsection \<open>The MDP (datagram) requests\<close>

text \<open>
  Modelled from the spec: \<^verbatim>\<open>write_uint64\<close>, \<^verbatim>\<open>write_uint32\<close> and \<^verbatim>\<open>write_uint16\<close>
  are not defined in the sources; the spec's request layout gives each field as
  big-endian, so each writes its value most significant byte first.
\<close>

definition write_uint64 :: "64 word \<Rightarrow> bytes" where
  "write_uint64 v = map (\<lambda>i. ucast (drop_bit (8 * (7 - i)) v)) [0..<8]"

definition write_uint32 :: "32 word \<Rightarrow> bytes" where
  "write_uint32 v = map (\<lambda>i. ucast (drop_bit (8 * (3 - i)) v)) [0..<4]"

definition write_uint16 :: "16 word \<Rightarrow> bytes" where
  "write_uint16 v = map (\<lambda>i. ucast (drop_bit (8 * (1 - i)) v)) [0..<2]"

text \<open>
  Modelled from the spec: \<^verbatim>\<open>RHIZOME_BAR_BYTES\<close> is declared in rhizome.h, which is not
  among the sources; the spec's layout puts the version right after the 32-byte manifest
  id, at offset 32, which is where the code writes it
  (\<^verbatim>\<open>&mdp.out.payload[RHIZOME_BAR_BYTES]\<close>).
\<close>

definition RHIZOME_BAR_BYTES :: nat where
  "RHIZOME_BAR_BYTES = 32"

text \<open>Storing the bytes \<open>src\<close> into a buffer at offset \<open>off\<close>.\<close>

definition buf_write :: "bytes \<Rightarrow> nat \<Rightarrow> bytes \<Rightarrow> bytes" where
  "buf_write buf off src = take off buf @ src @ drop (off + length src) buf"

text \<open>
  The frame \<^verbatim>\<open>rhizome_fetch_mdp_requestblocks\<close> builds: \<^verbatim>\<open>bzero\<close>, the two addresses,
  \<^verbatim>\<open>ttl\<close>, type, queue, \<^verbatim>\<open>payload_length = RHIZOME_BAR_BYTES+8+8+4+2\<close>, the manifest id
  copied to offset 0 and the four \<^verbatim>\<open>write_uint\<close> calls at \<^verbatim>\<open>RHIZOME_BAR_BYTES\<close>,
  \<^verbatim>\<open>+8\<close>, \<^verbatim>\<open>+8+8\<close> and \<^verbatim>\<open>+8+8+4\<close>.
\<close>

definition requestblocks_frame :: "'w env \<Rightarrow> rhizome_fetch_slot \<Rightarrow> overlay_mdp_frame" where
  "requestblocks_frame env sl =
     (let len = RHIZOME_BAR_BYTES + 8 + 8 + 4 + 2;
          p0 = replicate len 0;
          p1 = buf_write p0 0 (take RHIZOME_MANIFEST_ID_BYTES (bid sl));
          p2 = buf_write p1 RHIZOME_BAR_BYTES (write_uint64 (word_of_int (bidVersion sl)));
          p3 = buf_write p2 (RHIZOME_BAR_BYTES + 8) (write_uint64 (mdpRXWindowStart sl));
          p4 = buf_write p3 (RHIZOME_BAR_BYTES + 8 + 8) (write_uint32 (mdpRXBitmap sl));
          p5 = buf_write p4 (RHIZOME_BAR_BYTES + 8 + 8 + 4)
                 (write_uint16 (word_of_int (mdpRXBlockLength sl)))
      in \<lparr>packetTypeAndFlags = MDP_TX,
          out_src_sid = take SID_SIZE (my_subscriber_sid env),
          out_src_port = MDP_PORT_RHIZOME_RESPONSE,
          out_dst_sid = take SID_SIZE (slot_peer_sid sl),
          out_dst_port = MDP_PORT_RHIZOME_REQUEST,
          out_ttl = 1, out_queue = OQ_ORDINARY,
          out_payload_length = len, out_payload = p5\<rparr>)"

text \<open>
  The functions from here to \<^verbatim>\<open>rhizome_start_next_queued_fetch\<close> reach
  \<^verbatim>\<open>rhizome_fetch_close\<close>, which calls them back. Each takes as \<open>close\<close> what runs where
  the C calls \<^verbatim>\<open>rhizome_fetch_close(slot)\<close>; \<open>rhizome_fetch_close\<close> below closes the cycle.
  A slot is named by the index \<open>k\<close> of its queue.
\<close>

type_synonym 'w close_fn = "nat \<Rightarrow> 'w fetch_state \<Rightarrow> fault + (int \<times> 'w fetch_state)"

definition overlay_mdp_dispatch :: "overlay_mdp_frame \<Rightarrow> 'w fetch_state \<Rightarrow> 'w fetch_state" where
  "overlay_mdp_dispatch mdp s = s\<lparr>mdp_dispatched := mdp_dispatched s @ [mdp]\<rparr>"

definition rhizome_fetch_mdp_requestblocks ::
  "'w close_fn \<Rightarrow> 'w env \<Rightarrow> nat \<Rightarrow> 'w fetch_state \<Rightarrow> fault + (int \<times> 'w fetch_state)" where
  "rhizome_fetch_mdp_requestblocks close env k s =
     (case ext (gettime_ms env) s of
        (now1, s1) \<Rightarrow>
          if now1 - mdpLastRX (slot_of s1 k) > mdpIdleTimeout (slot_of s1 k) then close k s1
          else
            (case ext (gettime_ms env) s1 of
               (now2, s2) \<Rightarrow>
                 (let s3 = slot_update k (\<lambda>sl. sl\<lparr>mdpNextTX := now2 + 133\<rparr>) s2;
                      s4 = overlay_mdp_dispatch (requestblocks_frame env (slot_of s3 k)) s3
                  in Inr (0, slot_update k
                               (\<lambda>sl. sl\<lparr>alarm_function := Fn_rhizome_fetch_mdp_slot_callback,
                                        alarm_alarm := mdpNextTX sl, alarm_scheduled := True\<rparr>)
                               s4))))"

definition requestmanifest_frame :: "'w env \<Rightarrow> rhizome_fetch_slot \<Rightarrow> overlay_mdp_frame" where
  "requestmanifest_frame env sl =
     \<lparr>packetTypeAndFlags = MDP_TX,
      out_src_sid = take SID_SIZE (my_subscriber_sid env),
      out_src_port = MDP_PORT_RHIZOME_RESPONSE,
      out_dst_sid = take SID_SIZE (slot_peer_sid sl),
      out_dst_port = MDP_PORT_RHIZOME_REQUEST,
      out_ttl = 1, out_queue = OQ_ORDINARY,
      out_payload_length = nat (prefix_length sl),
      out_payload = take (nat (prefix_length sl)) (prefix sl)\<rparr>"

definition rhizome_fetch_mdp_requestmanifest ::
  "'w close_fn \<Rightarrow> 'w env \<Rightarrow> nat \<Rightarrow> 'w fetch_state \<Rightarrow> fault + (int \<times> 'w fetch_state)" where
  "rhizome_fetch_mdp_requestmanifest close env k s =
     (if prefix_length (slot_of s k) < 1 \<or> prefix_length (slot_of s k) > 32 then close k s
      else
        (case ext (gettime_ms env) s of
           (now1, s1) \<Rightarrow>
             if now1 - mdpLastRX (slot_of s1 k) > mdpIdleTimeout (slot_of s1 k) then close k s1
             else
               (case ext (gettime_ms env) s1 of
                  (now2, s2) \<Rightarrow>
                    (let s3 = slot_update k (\<lambda>sl. sl\<lparr>mdpNextTX := now2 + 100\<rparr>) s2;
                         s4 = overlay_mdp_dispatch (requestmanifest_frame env (slot_of s3 k)) s3
                     in Inr (0, slot_update k
                                  (\<lambda>sl. sl\<lparr>alarm_function := Fn_rhizome_fetch_mdp_slot_callback,
                                           alarm_alarm := mdpNextTX sl, alarm_scheduled := True\<rparr>)
                                  s4)))))"

text \<open>
  \<^verbatim>\<open>rhizome_fetch_switch_to_mdp\<close>: \<^verbatim>\<open>unwatch\<close>, \<^verbatim>\<open>unschedule\<close>, close the socket if
  there is one, note the time, set up the window and send the first request. It returns 0
  whatever the request function returned.
\<close>

definition rhizome_fetch_switch_to_mdp ::
  "'w close_fn \<Rightarrow> 'w env \<Rightarrow> nat \<Rightarrow> 'w fetch_state \<Rightarrow> fault + (int \<times> 'w fetch_state)" where
  "rhizome_fetch_switch_to_mdp close env k s =
     (let s1 = slot_update k (\<lambda>sl. sl\<lparr>alarm_watched := False, alarm_scheduled := False\<rparr>) s;
          s2 = (if alarm_fd (slot_of s1 k) \<noteq> - 1
                then (slot_update k (\<lambda>sl. sl\<lparr>alarm_fd := - 1\<rparr>) s1)
                       \<lparr>closed_fds := closed_fds s1 @ [alarm_fd (slot_of s1 k)]\<rparr>
                else s1)
      in case ext (gettime_ms env) s2 of
           (now, s3) \<Rightarrow>
             (let s4 = slot_update k (\<lambda>sl. sl\<lparr>mdpLastRX := now\<rparr>) s3 in
              if bidP (slot_of s4 k) \<noteq> 0 then
                bindf (rhizome_fetch_mdp_requestblocks close env k
                         (slot_update k
                            (\<lambda>sl. sl\<lparr>mdpIdleTimeout := 5000, mdpRXWindowStart := file_ofs sl,
                                     mdpRXBitmap := 0, mdpRXBlockLength := 200\<rparr>) s4))
                  (\<lambda>(r, s5). Inr (0, s5))
              else
                (case ext (gettime_ms env) s4 of
                   (now2, s5) \<Rightarrow>
                     bindf (rhizome_fetch_mdp_requestmanifest close env k
                              (slot_update k
                                 (\<lambda>sl. sl\<lparr>mdpNextTX := now2 + 100, mdpIdleTimeout := 2000\<rparr>) s5))
                       (\<lambda>(r, s6). Inr (0, s6)))))"

subsection \<open>Starting a fetch\<close>

text \<open>
  \<^verbatim>\<open>schedule_fetch\<close>. \<open>bail\<close> (the import directory or the scratch file cannot be made)
  returns \<^verbatim>\<open>-1\<close>; \<open>bail_http\<close> (no IPv4 address, or the socket cannot be made or connected)
  sets the state to \<^verbatim>\<open>RHIZOME_FETCH_RXFILEMDP\<close>, switches to MDP and returns 0; otherwise
  the slot becomes \<^verbatim>\<open>RHIZOME_FETCH_CONNECTING\<close>, watched and with its idle alarm set.
\<close>

definition schedule_fetch ::
  "'w close_fn \<Rightarrow> 'w env \<Rightarrow> nat \<Rightarrow> 'w fetch_state \<Rightarrow> fault + (int \<times> 'w fetch_state)" where
  "schedule_fetch close env k s =
     (let bail_http =
            (\<lambda>s. bindf (rhizome_fetch_switch_to_mdp close env k
                          (slot_update k (\<lambda>sl. sl\<lparr>state := RHIZOME_FETCH_RXFILEMDP\<rparr>) s))
                    (\<lambda>(r, s'). Inr (0, s')))
      in case ext (create_rhizome_import_dir env) s of
           (r, s1) \<Rightarrow>
             if r = - 1 then Inr (- 1, s1)
             else
               (case ext (fopen env (filename (slot_of s1 k))) s1 of
                  (opened, s2) \<Rightarrow>
                    if \<not> opened then Inr (- 1, s2)
                    else
                      (let path = filename (slot_of s2 k);
                           s3 = s2\<lparr>fs := insert path (fs s2)\<rparr>
                       in if sin_family (slot_peer_ipandport (slot_of s3 k)) = AF_INET then
                            (case ext (socket env) s3 of
                               (sock, s4) \<Rightarrow>
                                 if sock = - 1 then bail_http s4
                                 else
                                   (case ext (set_nonblock env sock) s4 of
                                      (r, s5) \<Rightarrow>
                                        if r = - 1 then bail_http s5
                                        else
                                          (case ext (connect env sock
                                                      (slot_peer_ipandport (slot_of s5 k))) s5 of
                                             (c, s6) \<Rightarrow>
                                               if c = Connect_failed then bail_http s6
                                               else
                                                 (case ext (gettime_ms env)
                                                         (slot_update k
                                                            (\<lambda>sl. sl\<lparr>alarm_fd := sock, request_ofs := 0,
                                                                     state := RHIZOME_FETCH_CONNECTING,
                                                                     slot_file := Some path,
                                                                     file_len := - 1, file_ofs := 0,
                                                                     alarm_function := Fn_rhizome_fetch_poll,
                                                                     alarm_events := {POLLIN, POLLOUT},
                                                                     alarm_watched := True\<rparr>) s6) of
                                                    (now, s7) \<Rightarrow>
                                                      Inr (0, slot_update k
                                                                (\<lambda>sl. sl\<lparr>alarm_alarm := now + RHIZOME_IDLE_TIMEOUT env,
                                                                         alarm_deadline :=
                                                                           now + RHIZOME_IDLE_TIMEOUT env
                                                                             + RHIZOME_IDLE_TIMEOUT env,
                                                                         alarm_scheduled := True\<rparr>) s7)))))
                          else bail_http s3)))"

text \<open>\<^verbatim>\<open>alloca_tohex_bid\<close>: the id as upper-case hexadecimal digits.\<close>

definition hexdigit :: "nat \<Rightarrow> char" where
  "hexdigit n = ''0123456789ABCDEF'' ! n"

definition tohex :: "bytes \<Rightarrow> string" where
  "tohex b = concat (map (\<lambda>x. [hexdigit (unat x div 16), hexdigit (unat x mod 16)]) b)"

definition alloca_tohex_bid :: "bytes \<Rightarrow> string" where
  "alloca_tohex_bid b = tohex (take RHIZOME_MANIFEST_ID_BYTES b)"

text \<open>\<^verbatim>\<open>strcasecmp(a, b) == 0\<close>.\<close>

definition strcasecmp_eq :: "string \<Rightarrow> string \<Rightarrow> bool" where
  "strcasecmp_eq a b = (map tolower a = map tolower b)"

definition rhizome_import_received_bundle ::
  "'w env \<Rightarrow> nat \<Rightarrow> 'w fetch_state \<Rightarrow> int \<times> 'w fetch_state" where
  "rhizome_import_received_bundle env m s =
     (let s1 = s\<lparr>heap := (heap s)
                 (m := (heap s m)\<lparr>finalised := True,
                                  manifest_bytes := manifest_all_bytes (heap s m)\<rparr>)\<rparr>
      in ext (rhizome_bundle_import env (heap s1 m) (ttl (heap s1 m) - 1)) s1)"

datatype rhizome_start_fetch_result =
  STARTED | SAMEBUNDLE | SAMEPAYLOAD | SUPERSEDED | OLDERBUNDLE | NEWERBUNDLE | IMPORTED
  | SLOTBUSY | FETCH_ERROR

text \<open>
  \<open>FETCH_ERROR\<close> is the return value \<^verbatim>\<open>-1\<close> of \<^verbatim>\<open>rhizome_fetch\<close>, which is none of the
  enumerators.

  The two loops of \<^verbatim>\<open>rhizome_fetch\<close> over the active slots. Both read the manifest of
  every slot that is not free; for a slot that fetches a manifest by prefix that pointer is
  \<^verbatim>\<open>NULL\<close>.
\<close>

fun same_bundle_scan ::
  "'w fetch_state \<Rightarrow> nat \<Rightarrow> nat list \<Rightarrow> fault + rhizome_start_fetch_result option" where
  "same_bundle_scan s m [] = Inr None"
| "same_bundle_scan s m (i # rest) =
     (if state (slot_of s i) \<noteq> RHIZOME_FETCH_FREE then
        (case slot_manifest (slot_of s i) of
           None \<Rightarrow> Inl Null_pointer
         | Some am \<Rightarrow>
             if memcmp_eq (cryptoSignPublic (heap s m)) (cryptoSignPublic (heap s am))
                  RHIZOME_MANIFEST_ID_BYTES
             then
               (if version (heap s am) < version (heap s m) then Inr (Some OLDERBUNDLE)
                else if version (heap s am) > version (heap s m) then Inr (Some NEWERBUNDLE)
                else Inr (Some SAMEBUNDLE))
             else same_bundle_scan s m rest)
      else same_bundle_scan s m rest)"

fun same_payload_scan :: "'w fetch_state \<Rightarrow> nat \<Rightarrow> nat list \<Rightarrow> fault + bool" where
  "same_payload_scan s m [] = Inr False"
| "same_payload_scan s m (i # rest) =
     (if state (slot_of s i) \<noteq> RHIZOME_FETCH_FREE then
        (case slot_manifest (slot_of s i) of
           None \<Rightarrow> Inl Null_pointer
         | Some sm \<Rightarrow>
             if strcasecmp_eq (fileHexHash (heap s m)) (fileHexHash (heap s sm)) then Inr True
             else same_payload_scan s m rest)
      else same_payload_scan s m rest)"

text \<open>
  \<^verbatim>\<open>rhizome_fetch(slot, m, peerip, peersid)\<close>, in the order of the source: slot busy; nil
  payload (import); version lookup; same bundle in progress; missing file hash; payload
  already stored (add the manifest); same payload in progress; then, from the comment
  \<^verbatim>\<open>// Start the fetch.\<close> on (\<open>rhizome_fetch_start\<close>), the slot is written (peer
  address, request, peer sid, bid, version, \<open>bidP\<close>, scratch path, manifest) and
  \<^verbatim>\<open>schedule_fetch\<close> runs. The request buffer holds 1024 characters:
  \<^verbatim>\<open>strbuf_overrun\<close> when the request is longer than 1023.
\<close>

definition rhizome_fetch_start ::
  "'w close_fn \<Rightarrow> 'w env \<Rightarrow> nat \<Rightarrow> nat \<Rightarrow> sockaddr_in \<Rightarrow> bytes \<Rightarrow> 'w fetch_state \<Rightarrow>
   fault + (rhizome_start_fetch_result \<times> 'w fetch_state)" where
  "rhizome_fetch_start close env k m peerip peersid s =
     (let r = ''GET /rhizome/file/'' @ fileHexHash (heap s m) @ '' HTTP/1.0''
                @ [CHR 0x0D, CHR 0x0A, CHR 0x0D, CHR 0x0A];
          s1 = slot_update k (\<lambda>sl. sl\<lparr>slot_peer_ipandport := peerip, request := take 1023 r\<rparr>) s
      in if length r > 1023 then Inr (FETCH_ERROR, s1)
         else
           (let s2 = slot_update k
                       (\<lambda>sl. sl\<lparr>request_len := int (length r),
                                slot_peer_sid := take SID_SIZE peersid,
                                bid := take RHIZOME_MANIFEST_ID_BYTES (cryptoSignPublic (heap s1 m)),
                                bidVersion := version (heap s1 m),
                                bidP := 1\<rparr>) s1
            in case form_rhizome_import_path env
                      (''payload.'' @ alloca_tohex_bid (cryptoSignPublic (heap s2 m))) of
                 None \<Rightarrow> Inr (FETCH_ERROR, s2)
               | Some path \<Rightarrow>
                   (let s3 = slot_update k (\<lambda>sl. sl\<lparr>filename := path\<rparr>) s2;
                        s4 = s3\<lparr>heap := (heap s3)
                                (m := (heap s3 m)\<lparr>dataFileName := Some path,
                                                 dataFileUnlinkOnFree := False\<rparr>)\<rparr>;
                        s5 = slot_update k (\<lambda>sl. sl\<lparr>slot_manifest := Some m\<rparr>) s4
                    in bindf (schedule_fetch close env k s5)
                         (\<lambda>(r, s6).
                            if r = - 1
                            then Inr (FETCH_ERROR, slot_update k (\<lambda>sl. sl\<lparr>filename := []\<rparr>) s6)
                            else Inr (STARTED, s6)))))"

definition rhizome_fetch ::
  "'w close_fn \<Rightarrow> 'w env \<Rightarrow> nat \<Rightarrow> nat \<Rightarrow> sockaddr_in \<Rightarrow> bytes \<Rightarrow> 'w fetch_state \<Rightarrow>
   fault + (rhizome_start_fetch_result \<times> 'w fetch_state)" where
  "rhizome_fetch close env k m peerip peersid s =
     (if state (slot_of s k) \<noteq> RHIZOME_FETCH_FREE then Inr (SLOTBUSY, s)
      else if fileLength (heap s m) = 0 then
        (case rhizome_import_received_bundle env m s of
           (r, s1) \<Rightarrow> if r = - 1 then Inr (FETCH_ERROR, s1) else Inr (IMPORTED, s1))
      else
        (case rhizome_manifest_version_cache_lookup env m s of
           (r, s1) \<Rightarrow>
             if r \<noteq> 0 then Inr (SUPERSEDED, s1)
             else
               bindf (same_bundle_scan s1 m [0..<NQUEUES s1])
                 (\<lambda>found.
                    case found of
                      Some res \<Rightarrow> Inr (res, s1)
                    | None \<Rightarrow>
                        if \<not> fileHashedP (heap s1 m) then Inr (FETCH_ERROR, s1)
                        else
                          (case ext (sqlite_exec_int64 env
                                      (Select_file_count (fileHexHash (heap s1 m)))) s1 of
                             ((ret, val), s2) \<Rightarrow>
                               if ret \<noteq> 1 then Inr (FETCH_ERROR, s2)
                               else if (case val of Some g \<Rightarrow> g | None \<Rightarrow> 0) \<noteq> 0 then
                                 (case ext (rhizome_add_manifest env (heap s2 m)
                                             (ttl (heap s2 m) - 1)) s2 of
                                    (r, s3) \<Rightarrow>
                                      if r = - 1 then Inr (FETCH_ERROR, s3) else Inr (IMPORTED, s3))
                               else
                                 bindf (same_payload_scan s2 m [0..<NQUEUES s2])
                                   (\<lambda>same.
                                      if same then Inr (SAMEPAYLOAD, s2)
                                      else rhizome_fetch_start close env k m peerip peersid s2)))))"

subsection \<open>Starting the next queued fetch\<close>

text \<open>
  \<^verbatim>\<open>rhizome_start_next_queued_fetch(slot)\<close>:
  \<^verbatim>\<open>for (q = (struct rhizome_fetch_queue *) slot; q >= rhizome_fetch_queues; --q)\<close> around
  \<^verbatim>\<open>while (i < q->candidate_queue_size && (c = &q->candidate_queue[i])->manifest)\<close>,
  as one function of the queue index \<open>q\<close> and the position \<open>i\<close>. Each round of either
  loop uses one unit of the budget \<open>n\<close>.
\<close>

primrec start_next_loop ::
  "nat \<Rightarrow> 'w close_fn \<Rightarrow> 'w env \<Rightarrow> nat \<Rightarrow> nat \<Rightarrow> nat \<Rightarrow> 'w fetch_state \<Rightarrow> fault + 'w fetch_state" where
  "start_next_loop 0 close env k q i s = Inl Out_of_fuel"
| "start_next_loop (Suc n) close env k q i s =
     (if i < length (queue_of s q) \<and> manifest (queue_of s q ! i) \<noteq> None then
        bindf (rhizome_fetch close env k (the (manifest (queue_of s q ! i)))
                 (peer_ipandport (queue_of s q ! i)) (peer_sid (queue_of s q ! i)) s)
          (\<lambda>(result, s1).
             case result of
               SLOTBUSY \<Rightarrow> Inr s1
             | STARTED \<Rightarrow>
                 rhizome_fetch_unqueue q i
                   (queue_update q (\<lambda>cq. cq[i := (cq ! i)\<lparr>manifest := None\<rparr>]) s1)
             | OLDERBUNDLE \<Rightarrow> start_next_loop n close env k q (i + 1) s1
             | _ \<Rightarrow> bindf (rhizome_fetch_unqueue q i s1) (start_next_loop n close env k q i))
      else if q = 0 then Inr s
      else start_next_loop n close env k (q - 1) 0 s)"

text \<open>
  \<^verbatim>\<open>rhizome_fetch_close(slot)\<close>. \<open>fetch_close_release\<close> is its body between the
  assertion and the final call of \<^verbatim>\<open>rhizome_start_next_queued_fetch(slot)\<close>. Each nested
  call of \<^verbatim>\<open>rhizome_fetch_close\<close> uses one unit of the budget.
\<close>

definition fetch_close_release :: "nat \<Rightarrow> 'w fetch_state \<Rightarrow> 'w fetch_state" where
  "fetch_close_release k s =
     (let sl = slot_of s k;
          s1 = (slot_update k
                  (\<lambda>sl. sl\<lparr>alarm_watched := False, alarm_scheduled := False, alarm_fd := - 1\<rparr>) s)
                 \<lparr>closed_fds := closed_fds s @ [alarm_fd sl]\<rparr>;
          s2 = (case slot_file sl of Some f \<Rightarrow> s1\<lparr>fclosed := fclosed s1 @ [f]\<rparr> | None \<Rightarrow> s1);
          s3 = slot_update k (\<lambda>sl. sl\<lparr>slot_file := None\<rparr>) s2;
          s4 = (case slot_manifest sl of Some p \<Rightarrow> rhizome_manifest_free p s3 | None \<Rightarrow> s3);
          s5 = slot_update k (\<lambda>sl. sl\<lparr>slot_manifest := None\<rparr>) s4;
          s6 = (if filename sl \<noteq> [] then s5\<lparr>fs := fs s5 - {filename sl}\<rparr> else s5)
      in slot_update k (\<lambda>sl. sl\<lparr>filename := [], state := RHIZOME_FETCH_FREE\<rparr>) s6)"

primrec rhizome_fetch_close ::
  "nat \<Rightarrow> 'w env \<Rightarrow> nat \<Rightarrow> 'w fetch_state \<Rightarrow> fault + (int \<times> 'w fetch_state)" where
  "rhizome_fetch_close 0 env k s =
     (if state (slot_of s k) = RHIZOME_FETCH_FREE then Inl Assertion_failed else Inl Out_of_fuel)"
| "rhizome_fetch_close (Suc n) env k s =
     (if state (slot_of s k) = RHIZOME_FETCH_FREE then Inl Assertion_failed
      else bindf (start_next_loop n (rhizome_fetch_close n env) env k k 0 (fetch_close_release k s))
             (\<lambda>s'. Inr (0, s')))"

definition rhizome_start_next_queued_fetch ::
  "nat \<Rightarrow> 'w env \<Rightarrow> nat \<Rightarrow> 'w fetch_state \<Rightarrow> fault + 'w fetch_state" where
  "rhizome_start_next_queued_fetch n env k s =
     start_next_loop n (rhizome_fetch_close n env) env k k 0 s"

text \<open>
  \<^verbatim>\<open>rhizome_start_next_queued_fetches\<close>, the activation alarm:
  \<^verbatim>\<open>for (i = 0; i < NQUEUES; ++i) rhizome_start_next_queued_fetch(&rhizome_fetch_queues[i].active);\<close>
\<close>

fun start_next_each ::
  "nat \<Rightarrow> 'w env \<Rightarrow> nat list \<Rightarrow> 'w fetch_state \<Rightarrow> fault + 'w fetch_state" where
  "start_next_each n env [] s = Inr s"
| "start_next_each n env (i # rest) s =
     bindf (rhizome_start_next_queued_fetch n env i s) (start_next_each n env rest)"

definition rhizome_start_next_queued_fetches ::
  "nat \<Rightarrow> 'w env \<Rightarrow> 'w fetch_state \<Rightarrow> fault + 'w fetch_state" where
  "rhizome_start_next_queued_fetches n env s = start_next_each n env [0..<NQUEUES s] s"

text \<open>
  The order the spec gives for the activation tick, for comparison with the code's:
  the same calls, from the largest-threshold queue to the smallest.
\<close>

definition spec_start_next_largest_first ::
  "nat \<Rightarrow> 'w env \<Rightarrow> 'w fetch_state \<Rightarrow> fault + 'w fetch_state" where
  "spec_start_next_largest_first n env s = start_next_each n env (rev [0..<NQUEUES s]) s"

subsection \<open>Suggesting a manifest for import\<close>







subsection \<open>Received content\<close>




subsection \<open>Frame\<close>

text \<open>
  Two states that differ at most in the outside world and in the contents of the
  manifests: the queues, the slots and everything the calls leave behind are the same.
\<close>

definition only_world_heap_changed :: "'w fetch_state \<Rightarrow> 'w fetch_state \<Rightarrow> bool" where
  "only_world_heap_changed s s' =
     (rhizome_fetch_queues s' = rhizome_fetch_queues s \<and> freed s' = freed s
      \<and> ignored s' = ignored s \<and> fs s' = fs s \<and> fwritten s' = fwritten s
      \<and> fclosed s' = fclosed s \<and> closed_fds s' = closed_fds s
      \<and> mdp_dispatched s' = mdp_dispatched s
      \<and> sched_activate_scheduled s' = sched_activate_scheduled s
      \<and> sched_activate_alarm s' = sched_activate_alarm s
      \<and> sched_activate_deadline s' = sched_activate_deadline s)"


section \<open>Sample inputs\<close>

text \<open>
  An environment for running the model on concrete inputs: the world is the clock reading,
  the store holds the manifest versions \<open>db\<close> and no payload, every other call succeeds.
\<close>

definition sample_env :: "(string \<Rightarrow> int option) \<Rightarrow> int env" where
  "sample_env db =
     \<lparr>sqlite_exec_int64 =
        (\<lambda>q w. case q of
                 Select_manifest_version i \<Rightarrow>
                   (case db i of Some v \<Rightarrow> ((1, Some v), w) | None \<Rightarrow> ((0, None), w))
               | Select_file_count h \<Rightarrow> ((1, Some 0), w)),
      rhizome_bundle_import = (\<lambda>m t w. (0, w)),
      rhizome_add_manifest = (\<lambda>m t w. (0, w)),
      rhizome_manifest_verify = (\<lambda>m w. (0, w)),
      rhizome_new_manifest = (\<lambda>w. (None, w)),
      rhizome_read_manifest_file = (\<lambda>p w. (None, w)),
      gettime_ms = (\<lambda>w. (w, w)),
      c_random = (\<lambda>w. (5, w)),
      create_rhizome_import_dir = (\<lambda>w. (0, w)),
      form_rhizome_import_path = (\<lambda>n. Some (''/import/'' @ n)),
      fopen = (\<lambda>p w. (True, w)),
      fwrite = (\<lambda>p b w. (1, w)),
      socket = (\<lambda>w. (3, w)),
      set_nonblock = (\<lambda>fd w. (0, w)),
      connect = (\<lambda>fd a w. (Connect_einprogress, w)),
      my_subscriber_sid = replicate 32 1,
      rhizome_fetch_delay_ms = 50,
      RHIZOME_IDLE_TIMEOUT = 5000\<rparr>"



text \<open>
  A queue with two candidates (manifests at addresses 1 and 2) in the first queue of the
  initial state.
\<close>

definition two_queued :: "unit fetch_state" where
  "two_queued =
     queue_update 0
       (\<lambda>cq. cq[0 := zero_candidate\<lparr>manifest := Some 1\<rparr>, 1 := zero_candidate\<lparr>manifest := Some 2\<rparr>])
       (initial_state () (\<lambda>p. zero_manifest))"


text \<open>A state whose manifests all carry the id variable \<open>ab\<close> and version 5.\<close>

definition lookup_example :: "int fetch_state" where
  "lookup_example =
     initial_state 0 (\<lambda>p. zero_manifest\<lparr>var_id := Some ''ab'', var_version := 5\<rparr>)"

text \<open>
  A manifest with a payload of 5000 bytes, a peer with an IPv4 address, and the initial
  state with that manifest (at every address) queued once, in the first queue.
\<close>

definition sample_manifest :: rhizome_manifest where
  "sample_manifest =
     zero_manifest\<lparr>cryptoSignPublic := replicate 32 7, var_id := Some ''ab'', var_version := 1,
                   version := 1, fileLength := 5000, fileHashedP := True, fileHexHash := ''CD'',
                   ttl := 3\<rparr>"

definition sample_peer :: sockaddr_in where
  "sample_peer = \<lparr>sin_family = AF_INET, sin_port = 4110, sin_addr = 1\<rparr>"

definition sample_candidate :: rhizome_fetch_candidate where
  "sample_candidate =
     \<lparr>manifest = Some 1, peer_ipandport = sample_peer, peer_sid = replicate 32 9, priority = 100\<rparr>"

definition one_queued :: "int fetch_state" where
  "one_queued =
     queue_update 0 (\<lambda>cq. cq[0 := sample_candidate]) (initial_state 1000 (\<lambda>p. sample_manifest))"






section \<open>Properties\<close>


subsection \<open>Access to the state\<close>

lemma NQUEUES_updates [simp]:
  "NQUEUES (queue_update q f s) = NQUEUES s"
  "NQUEUES (slot_update k g s) = NQUEUES s"
  "NQUEUES (rhizome_manifest_free p s) = NQUEUES s"
  by (simp_all add: NQUEUES_def queue_update_def slot_update_def rhizome_manifest_free_def)

lemma queue_of_queue_update:
  "q < NQUEUES s \<Longrightarrow>
   queue_of (queue_update q f s) q' = (if q' = q then f (queue_of s q) else queue_of s q')"
  by (simp add: NQUEUES_def queue_of_def queue_update_def)

lemma slot_of_queue_update [simp]: "slot_of (queue_update q f s) k = slot_of s k"
  by (cases "q < NQUEUES s"; cases "k = q")
     (simp_all add: NQUEUES_def slot_of_def queue_update_def list_update_beyond not_less)

lemma queue_of_slot_update [simp]: "queue_of (slot_update k f s) q = queue_of s q"
  by (cases "k < NQUEUES s"; cases "k = q")
     (simp_all add: NQUEUES_def queue_of_def slot_update_def list_update_beyond not_less)


lemma queue_update_fields [simp]:
  "world (queue_update q f s) = world s" "heap (queue_update q f s) = heap s"
  "freed (queue_update q f s) = freed s" "ignored (queue_update q f s) = ignored s"
  "fs (queue_update q f s) = fs s" "fclosed (queue_update q f s) = fclosed s"
  "fwritten (queue_update q f s) = fwritten s"
  "closed_fds (queue_update q f s) = closed_fds s"
  "mdp_dispatched (queue_update q f s) = mdp_dispatched s"
  "sched_activate_scheduled (queue_update q f s) = sched_activate_scheduled s"
  "sched_activate_alarm (queue_update q f s) = sched_activate_alarm s"
  "sched_activate_deadline (queue_update q f s) = sched_activate_deadline s"
  by (simp_all add: queue_update_def)

lemma slot_update_fields [simp]:
  "world (slot_update q f s) = world s" "heap (slot_update q f s) = heap s"
  "freed (slot_update q f s) = freed s" "ignored (slot_update q f s) = ignored s"
  "fs (slot_update q f s) = fs s" "fclosed (slot_update q f s) = fclosed s"
  "fwritten (slot_update q f s) = fwritten s"
  "closed_fds (slot_update q f s) = closed_fds s"
  "mdp_dispatched (slot_update q f s) = mdp_dispatched s"
  "sched_activate_scheduled (slot_update q f s) = sched_activate_scheduled s"
  "sched_activate_alarm (slot_update q f s) = sched_activate_alarm s"
  "sched_activate_deadline (slot_update q f s) = sched_activate_deadline s"
  by (simp_all add: slot_update_def)

lemma rhizome_manifest_free_fields [simp]:
  "queue_of (rhizome_manifest_free p s) q = queue_of s q"
  "slot_of (rhizome_manifest_free p s) k = slot_of s k"
  "freed (rhizome_manifest_free p s) = freed s @ [p]"
  "world (rhizome_manifest_free p s) = world s" "heap (rhizome_manifest_free p s) = heap s"
  "rhizome_fetch_queues (rhizome_manifest_free p s) = rhizome_fetch_queues s"
  by (simp_all add: rhizome_manifest_free_def queue_of_def slot_of_def)

lemma slot_of_field_updates [simp]:
  "slot_of (s\<lparr>world := x0\<rparr>) k = slot_of s k"
  "slot_of (s\<lparr>heap := x1\<rparr>) k = slot_of s k"
  "slot_of (s\<lparr>freed := x2\<rparr>) k = slot_of s k"
  "slot_of (s\<lparr>ignored := x3\<rparr>) k = slot_of s k"
  "slot_of (s\<lparr>fs := x4\<rparr>) k = slot_of s k"
  "slot_of (s\<lparr>fwritten := x5\<rparr>) k = slot_of s k"
  "slot_of (s\<lparr>fclosed := x6\<rparr>) k = slot_of s k"
  "slot_of (s\<lparr>closed_fds := x7\<rparr>) k = slot_of s k"
  "slot_of (s\<lparr>mdp_dispatched := x8\<rparr>) k = slot_of s k"
  "slot_of (s\<lparr>sched_activate_scheduled := x9\<rparr>) k = slot_of s k"
  "slot_of (s\<lparr>sched_activate_alarm := x10\<rparr>) k = slot_of s k"
  "slot_of (s\<lparr>sched_activate_deadline := x11\<rparr>) k = slot_of s k"
  by (simp_all add: slot_of_def)

lemma queue_of_field_updates [simp]:
  "queue_of (s\<lparr>world := x0\<rparr>) q = queue_of s q"
  "queue_of (s\<lparr>heap := x1\<rparr>) q = queue_of s q"
  "queue_of (s\<lparr>freed := x2\<rparr>) q = queue_of s q"
  "queue_of (s\<lparr>ignored := x3\<rparr>) q = queue_of s q"
  "queue_of (s\<lparr>fs := x4\<rparr>) q = queue_of s q"
  "queue_of (s\<lparr>fwritten := x5\<rparr>) q = queue_of s q"
  "queue_of (s\<lparr>fclosed := x6\<rparr>) q = queue_of s q"
  "queue_of (s\<lparr>closed_fds := x7\<rparr>) q = queue_of s q"
  "queue_of (s\<lparr>mdp_dispatched := x8\<rparr>) q = queue_of s q"
  "queue_of (s\<lparr>sched_activate_scheduled := x9\<rparr>) q = queue_of s q"
  "queue_of (s\<lparr>sched_activate_alarm := x10\<rparr>) q = queue_of s q"
  "queue_of (s\<lparr>sched_activate_deadline := x11\<rparr>) q = queue_of s q"
  by (simp_all add: queue_of_def)

lemma NQUEUES_field_updates [simp]:
  "NQUEUES (s\<lparr>world := x0\<rparr>) = NQUEUES s"
  "NQUEUES (s\<lparr>heap := x1\<rparr>) = NQUEUES s"
  "NQUEUES (s\<lparr>freed := x2\<rparr>) = NQUEUES s"
  "NQUEUES (s\<lparr>ignored := x3\<rparr>) = NQUEUES s"
  "NQUEUES (s\<lparr>fs := x4\<rparr>) = NQUEUES s"
  "NQUEUES (s\<lparr>fwritten := x5\<rparr>) = NQUEUES s"
  "NQUEUES (s\<lparr>fclosed := x6\<rparr>) = NQUEUES s"
  "NQUEUES (s\<lparr>closed_fds := x7\<rparr>) = NQUEUES s"
  "NQUEUES (s\<lparr>mdp_dispatched := x8\<rparr>) = NQUEUES s"
  "NQUEUES (s\<lparr>sched_activate_scheduled := x9\<rparr>) = NQUEUES s"
  "NQUEUES (s\<lparr>sched_activate_alarm := x10\<rparr>) = NQUEUES s"
  "NQUEUES (s\<lparr>sched_activate_deadline := x11\<rparr>) = NQUEUES s"
  by (simp_all add: NQUEUES_def)

lemma ext_simps:
  "fst (ext f s) = fst (f (world s))"
  "snd (ext f s) = s\<lparr>world := snd (f (world s))\<rparr>"
  by (simp_all add: ext_def split: prod.split)


lemma bindf_simps [simp]: "bindf (Inl e) f = Inl e" "bindf (Inr v) f = f v"
  by (simp_all add: bindf_def)

lemma bindf_eq_Inr: "bindf x f = Inr y \<longleftrightarrow> (\<exists>v. x = Inr v \<and> f v = Inr y)"
  by (cases x) simp_all


subsection \<open>Queue selection\<close>

lemma find_queue_from_Some:
  "find_queue_from qs sz k = Some i \<longleftrightarrow>
     (k \<le> i \<and> i < length qs \<and> (size_threshold (qs ! i) < 0 \<or> sz < size_threshold (qs ! i)) \<and>
      (\<forall>j. k \<le> j \<and> j < i \<longrightarrow> \<not> (size_threshold (qs ! j) < 0 \<or> sz < size_threshold (qs ! j))))"
proof (induction qs sz k rule: find_queue_from.induct)
  case (1 qs sz k)
  let ?fits = "\<lambda>j. size_threshold (qs ! j) < 0 \<or> sz < size_threshold (qs ! j)"
  show ?case
  proof (cases "k < length qs")
    case False
    then show ?thesis by (simp add: find_queue_from.simps [of qs sz k])
  next
    case True
    show ?thesis
    proof (cases "?fits k")
      case hit: True
      have r: "find_queue_from qs sz k = Some k"
        using True hit by (simp add: find_queue_from.simps [of qs sz k])
      show ?thesis
      proof
        assume "find_queue_from qs sz k = Some i"
        then have "i = k" using r by simp
        then show "k \<le> i \<and> i < length qs \<and> ?fits i \<and> (\<forall>j. k \<le> j \<and> j < i \<longrightarrow> \<not> ?fits j)"
          using True hit by simp
      next
        assume h: "k \<le> i \<and> i < length qs \<and> ?fits i \<and> (\<forall>j. k \<le> j \<and> j < i \<longrightarrow> \<not> ?fits j)"
        have "\<not> k < i" using h hit by blast
        then have "i = k" using h by simp
        then show "find_queue_from qs sz k = Some i" using r by simp
      qed
    next
      case miss: False
      have eq: "find_queue_from qs sz k = find_queue_from qs sz (k + 1)"
        using True miss by (simp add: find_queue_from.simps [of qs sz k])
      have ih: "find_queue_from qs sz (k + 1) = Some i \<longleftrightarrow>
         (k + 1 \<le> i \<and> i < length qs \<and> ?fits i \<and> (\<forall>j. k + 1 \<le> j \<and> j < i \<longrightarrow> \<not> ?fits j))"
        using "1.IH" True miss by simp
      show ?thesis
      proof
        assume "find_queue_from qs sz k = Some i"
        then have h: "k + 1 \<le> i \<and> i < length qs \<and> ?fits i \<and> (\<forall>j. k + 1 \<le> j \<and> j < i \<longrightarrow> \<not> ?fits j)"
          using eq ih by simp
        have "\<not> ?fits j" if "k \<le> j \<and> j < i" for j
        proof (cases "j = k")
          case True then show ?thesis using miss by simp
        next
          case False then show ?thesis using h that by simp
        qed
        then show "k \<le> i \<and> i < length qs \<and> ?fits i \<and> (\<forall>j. k \<le> j \<and> j < i \<longrightarrow> \<not> ?fits j)"
          using h by simp
      next
        assume h: "k \<le> i \<and> i < length qs \<and> ?fits i \<and> (\<forall>j. k \<le> j \<and> j < i \<longrightarrow> \<not> ?fits j)"
        have "i \<noteq> k" using h miss by blast
        then have "k + 1 \<le> i" using h by simp
        then show "find_queue_from qs sz k = Some i" using eq ih h by simp
      qed
    qed
  qed
qed


lemma thresholds_nth:
  assumes a: "map size_threshold qs = [10000, 100000, 1000000, 10000000, - 1]"
  shows "length qs = 5" "size_threshold (qs ! 0) = 10000" "size_threshold (qs ! 1) = 100000"
    "size_threshold (qs ! 2) = 1000000" "size_threshold (qs ! 3) = 10000000"
    "size_threshold (qs ! 4) = - 1"
proof -
  have "length (map size_threshold qs) = 5" unfolding a by simp
  then show l: "length qs = 5" by simp
  have n: "size_threshold (qs ! i) = [10000, 100000, 1000000, 10000000, - 1] ! i" if "i < 5" for i
  proof -
    have "map size_threshold qs ! i = size_threshold (qs ! i)" using that l by simp
    then show ?thesis using a by simp
  qed
  show "size_threshold (qs ! 0) = 10000" using n [of 0] by simp
  show "size_threshold (qs ! 1) = 100000" using n [of 1] by simp
  show "size_threshold (qs ! 2) = 1000000" using n [of 2] by simp
  show "size_threshold (qs ! 3) = 10000000" using n [of 3] by simp
  show "size_threshold (qs ! 4) = - 1" using n [of 4] by simp
qed

lemma find_queue_table:
  assumes a: "map size_threshold qs = [10000, 100000, 1000000, 10000000, - 1]"
  shows "rhizome_find_queue qs sz =
    Some (if sz < 10000 then 0 else if sz < 100000 then 1 else if sz < 1000000 then 2
           else if sz < 10000000 then 3 else 4)"
proof -
  note t = thresholds_nth [OF a]
  have s4: "find_queue_from qs sz 4 = Some 4"
    using t by (simp add: find_queue_from.simps [of qs sz 4])
  have s3: "find_queue_from qs sz 3 = (if sz < 10000000 then Some 3 else Some 4)"
    using t s4 by (simp add: find_queue_from.simps [of qs sz 3])
  have s2: "find_queue_from qs sz 2 = (if sz < 1000000 then Some 2 else if sz < 10000000 then Some 3 else Some 4)"
    using t s3 by (simp add: find_queue_from.simps [of qs sz 2])
  have s1: "find_queue_from qs sz 1 = (if sz < 100000 then Some 1 else if sz < 1000000 then Some 2 else if sz < 10000000 then Some 3 else Some 4)"
    using t s2 by (simp add: find_queue_from.simps [of qs sz 1] del: One_nat_def)
  have s0: "find_queue_from qs sz 0 = (if sz < 10000 then Some 0 else if sz < 100000 then Some 1 else if sz < 1000000 then Some 2 else if sz < 10000000 then Some 3 else Some 4)"
    using t s1 by (simp add: find_queue_from.simps [of qs sz 0] del: One_nat_def)
  show ?thesis unfolding rhizome_find_queue_def s0 by simp
qed


text \<open>
  C1. For every payload size, \<^verbatim>\<open>rhizome_find_queue\<close> returns the first queue whose
  threshold is negative (unbounded) or strictly greater than the size. With the thresholds
  of the static table (10000, 100000, 1000000, 10000000, unbounded) this is queue 0 below
  10000, queue 1 below 100000, queue 2 below 1000000, queue 3 below 10000000 and queue 4
  otherwise: lengths 9999, 10000, 100000 and 10000001 go to queues 0, 1, 2 and 4, a length
  of threshold - 1 goes to the queue of that threshold and a length equal to the threshold
  to the next queue up.
\<close>

theorem rhizome_find_queue_routing:
  assumes "map size_threshold qs = [10000, 100000, 1000000, 10000000, - 1]"
  shows "rhizome_find_queue qs sz =
           Some (if sz < 10000 then 0 else if sz < 100000 then 1 else if sz < 1000000 then 2
                 else if sz < 10000000 then 3 else 4)
         \<and> (rhizome_find_queue qs sz = Some i \<longleftrightarrow>
              i < length qs
              \<and> (size_threshold (qs ! i) < 0 \<or> sz < size_threshold (qs ! i))
              \<and> (\<forall>j < i. \<not> (size_threshold (qs ! j) < 0 \<or> sz < size_threshold (qs ! j))))
         \<and> rhizome_find_queue qs 9999 = Some 0
         \<and> rhizome_find_queue qs 10000 = Some 1
         \<and> rhizome_find_queue qs 99999 = Some 1
         \<and> rhizome_find_queue qs 100000 = Some 2
         \<and> rhizome_find_queue qs 999999 = Some 2
         \<and> rhizome_find_queue qs 1000000 = Some 3
         \<and> rhizome_find_queue qs 9999999 = Some 3
         \<and> rhizome_find_queue qs 10000000 = Some 4
         \<and> rhizome_find_queue qs 10000001 = Some 4"
proof -
  note tab = find_queue_table [OF assms]
  have first: "rhizome_find_queue qs sz = Some i \<longleftrightarrow>
              i < length qs
              \<and> (size_threshold (qs ! i) < 0 \<or> sz < size_threshold (qs ! i))
              \<and> (\<forall>j < i. \<not> (size_threshold (qs ! j) < 0 \<or> sz < size_threshold (qs ! j)))"
    unfolding rhizome_find_queue_def find_queue_from_Some by simp
  show ?thesis
    unfolding first [symmetric] by (simp add: tab)
qed

theorem rhizome_find_queue_routing_witness:
  "map size_threshold static_fetch_queues = [10000, 100000, 1000000, 10000000, - 1]
   \<and> rhizome_find_queue static_fetch_queues 9999 = Some 0
   \<and> rhizome_find_queue static_fetch_queues 10000 = Some 1
   \<and> rhizome_find_queue static_fetch_queues 100000 = Some 2
   \<and> rhizome_find_queue static_fetch_queues 10000001 = Some 4"
proof -
  have h: "map size_threshold static_fetch_queues = [10000, 100000, 1000000, 10000000, - 1]"
    by (simp add: static_fetch_queues_def)
  show ?thesis
    using h rhizome_find_queue_routing [OF h, of 0 0] by simp
qed


subsection \<open>Candidate queues\<close>


lemma unqueue_shift_stop:
  assumes "\<not> (c < length cq - 1 \<and> manifest (cq ! (c + 1)) \<noteq> None)"
  shows "unqueue_shift cq c = cq[c := (cq ! c)\<lparr>manifest := None\<rparr>]"
  using assms unqueue_shift.simps [of cq c] by auto

lemma unqueue_shift_step:
  assumes "c < length cq - 1 \<and> manifest (cq ! (c + 1)) \<noteq> None"
  shows "unqueue_shift cq c = unqueue_shift (cq[c := cq ! (c + 1)]) (c + 1)"
  using assms unqueue_shift.simps [of cq c] by auto

lemma insert_shift_stop: "\<not> c < e \<Longrightarrow> insert_shift cq c e = cq"
  by (subst insert_shift.simps) simp

lemma insert_shift_step:
  "c < e \<Longrightarrow> insert_shift cq c e = insert_shift (cq[e := cq ! (e - 1)]) c (e - 1)"
  by (subst insert_shift.simps) simp

lemma unqueue_shift_append:
  "length A = c \<Longrightarrow> \<forall>u \<in> set U. manifest u \<noteq> None \<Longrightarrow> (R = [] \<or> manifest (hd R) = None) \<Longrightarrow>
   unqueue_shift (A @ x # U @ R) c = A @ U @ [(last (x # U))\<lparr>manifest := None\<rparr>] @ R"
proof (induction U arbitrary: A x c)
  case Nil
  have "\<not> (c < length (A @ x # R) - 1 \<and> manifest ((A @ x # R) ! (c + 1)) \<noteq> None)"
    using Nil by (cases R) (auto simp: nth_append)
  then have "unqueue_shift (A @ x # R) c = (A @ x # R)[c := ((A @ x # R) ! c)\<lparr>manifest := None\<rparr>]"
    by (rule unqueue_shift_stop)
  then show ?case using Nil by (simp add: list_update_append nth_append)
next
  case (Cons u U)
  let ?a = "A @ x # (u # U) @ R"
  have c: "c < length ?a - 1 \<and> manifest (?a ! (c + 1)) \<noteq> None"
    using Cons.prems by (simp add: nth_append)
  have upd: "?a[c := ?a ! (c + 1)] = (A @ [u]) @ u # U @ R"
    using Cons.prems by (simp add: list_update_append nth_append)
  have "unqueue_shift ?a c = unqueue_shift (?a[c := ?a ! (c + 1)]) (c + 1)"
    using c by (rule unqueue_shift_step)
  also have "\<dots> = (A @ [u]) @ U @ [(last (u # U))\<lparr>manifest := None\<rparr>] @ R"
    unfolding upd using Cons.prems by (intro Cons.IH) auto
  finally show ?case by simp
qed

lemma insert_shift_append:
  "length A = c \<Longrightarrow> insert_shift (A @ M @ y # R) c (c + length M) = A @ hd (M @ [y]) # M @ R"
proof (induction M arbitrary: y R rule: rev_induct)
  case Nil
  then show ?case by (simp add: insert_shift_stop)
next
  case (snoc z M)
  let ?a = "A @ (M @ [z]) @ y # R"
  let ?e = "c + length (M @ [z])"
  have upd: "?a[?e := ?a ! (?e - 1)] = A @ M @ z # (z # R)"
    using snoc.prems by (simp add: list_update_append nth_append)
  have "insert_shift ?a c ?e = insert_shift (?a[?e := ?a ! (?e - 1)]) c (?e - 1)"
    by (rule insert_shift_step) simp
  also have "\<dots> = A @ hd (M @ [z]) # M @ (z # R)"
    unfolding upd using snoc.IH [OF snoc.prems, of z "z # R"] by simp
  finally show ?case by (cases M) simp_all
qed



lemma queued_all_used: "c \<in> set (queued cq) \<Longrightarrow> has_manifest c"
  unfolding queued_def by (auto dest: set_takeWhileD)

lemma queued_append_unused:
  "\<forall>c \<in> set A. has_manifest c \<Longrightarrow> Z = [] \<or> \<not> has_manifest (hd Z) \<Longrightarrow> queued (A @ Z) = A"
  unfolding queued_def by (cases Z) auto

lemma contiguous_append_unused:
  "\<forall>c \<in> set A. has_manifest c \<Longrightarrow> \<forall>c \<in> set Z. \<not> has_manifest c \<Longrightarrow> contiguous (A @ Z)"
proof -
  assume a: "\<forall>c \<in> set A. has_manifest c" and z: "\<forall>c \<in> set Z. \<not> has_manifest c"
  have "dropWhile has_manifest (A @ Z) = dropWhile has_manifest Z"
    using a by (intro dropWhile_append2) simp
  then show ?thesis
    unfolding contiguous_def list_all_iff using z by (auto dest: set_dropWhileD)
qed

lemma contiguous_split:
  assumes "contiguous cq"
  obtains Z where "cq = queued cq @ Z" "\<forall>c \<in> set Z. \<not> has_manifest c"
proof
  show "cq = queued cq @ dropWhile has_manifest cq"
    unfolding queued_def by simp
  show "\<forall>c \<in> set (dropWhile has_manifest cq). \<not> has_manifest c"
    using assms unfolding contiguous_def by (simp add: list_all_iff)
qed

lemma contiguous_iff:
  "contiguous cq \<longleftrightarrow>
     (\<forall>i j. i < j \<longrightarrow> j < length cq \<longrightarrow> manifest (cq ! i) = None \<longrightarrow> manifest (cq ! j) = None)"
proof
  assume "contiguous cq"
  then obtain Z where z: "cq = queued cq @ Z" "\<forall>c \<in> set Z. \<not> has_manifest c"
    by (rule contiguous_split)
  let ?n = "length (queued cq)"
  show "\<forall>i j. i < j \<longrightarrow> j < length cq \<longrightarrow> manifest (cq ! i) = None \<longrightarrow> manifest (cq ! j) = None"
  proof (intro allI impI)
    fix i j assume h: "i < j" "j < length cq" "manifest (cq ! i) = None"
    have "\<not> i < ?n"
    proof
      assume l: "i < ?n"
      have "cq ! i = (queued cq @ Z) ! i" using z(1) by simp
      also have "\<dots> = queued cq ! i" using l by (simp add: nth_append)
      finally have "cq ! i \<in> set (queued cq)" using l by simp
      then show False using h(3) queued_all_used [of "cq ! i" cq] by (simp add: has_manifest_def)
    qed
    then have nj: "?n \<le> j" using h(1) by simp
    have "length cq = ?n + length Z" using z(1) by (metis length_append)
    then have jz: "j - ?n < length Z" using h(2) nj by simp
    have "cq ! j = (queued cq @ Z) ! j" using z(1) by simp
    also have "\<dots> = Z ! (j - ?n)" using nj by (simp add: nth_append)
    finally have "cq ! j \<in> set Z" using jz by simp
    then show "manifest (cq ! j) = None" using z(2) by (auto simp: has_manifest_def)
  qed
next
  assume a: "\<forall>i j. i < j \<longrightarrow> j < length cq \<longrightarrow> manifest (cq ! i) = None \<longrightarrow> manifest (cq ! j) = None"
  let ?n = "length (takeWhile has_manifest cq)"
  show "contiguous cq"
    unfolding contiguous_def list_all_iff
  proof
    fix c assume "c \<in> set (dropWhile has_manifest cq)"
    then obtain k where k: "k < length (dropWhile has_manifest cq)" "c = dropWhile has_manifest cq ! k"
      by (auto simp: in_set_conv_nth)
    have "length cq = ?n + length (dropWhile has_manifest cq)"
      by (metis length_append takeWhile_dropWhile_id)
    then have len: "?n + k < length cq" using k(1) by simp
    have ck: "c = cq ! (?n + k)"
      using k by (simp add: dropWhile_nth add.commute)
    have "?n < length cq" using len by simp
    then have n0: "manifest (cq ! ?n) = None"
      using nth_length_takeWhile [of has_manifest cq] by (simp add: has_manifest_def)
    show "\<not> has_manifest c"
    proof (cases k)
      case 0
      then show ?thesis using ck n0 by (simp add: has_manifest_def)
    next
      case (Suc k')
      then have "?n < ?n + k" by simp
      then have "manifest (cq ! (?n + k)) = None" using a len n0 by blast
      then show ?thesis using ck by (simp add: has_manifest_def)
    qed
  qed
qed


lemma hole_unused: "\<not> has_manifest (c\<lparr>manifest := None\<rparr>)"
  by (simp add: has_manifest_def)

lemma hole_id: "\<not> has_manifest c \<Longrightarrow> c\<lparr>manifest := None\<rparr> = c"
proof -
  assume "\<not> has_manifest c"
  then have "manifest c = None" by (simp add: has_manifest_def)
  then have "c\<lparr>manifest := None\<rparr> = c\<lparr>manifest := manifest c\<rparr>" by simp
  then show ?thesis by simp
qed

lemma nth_used_unused:
  assumes q: "\<forall>c \<in> set Q. has_manifest c" and z: "\<forall>c \<in> set Z. \<not> has_manifest c"
    and j: "j < length (Q @ Z)"
  shows "has_manifest ((Q @ Z) ! j) \<longleftrightarrow> j < length Q"
proof (cases "j < length Q")
  case True
  then have "(Q @ Z) ! j \<in> set Q" by (simp add: nth_append)
  then show ?thesis using q True by blast
next
  case False
  then have "j - length Q < length Z" using j by simp
  then have "(Q @ Z) ! j \<in> set Z" using False by (simp add: nth_append)
  then show ?thesis using z False by blast
qed

lemma insert_find_end_contiguous:
  assumes q: "\<forall>c \<in> set Q. has_manifest c" and z: "\<forall>c \<in> set Z. \<not> has_manifest c"
  shows "c \<le> length Q \<Longrightarrow> length Q \<le> e \<Longrightarrow> e \<le> length (Q @ Z) \<Longrightarrow>
         insert_find_end (Q @ Z) c e = length Q"
proof (induction e)
  case 0
  then show ?case by (subst insert_find_end.simps) simp
next
  case (Suc e)
  have e: "e < length (Q @ Z)" using Suc.prems by simp
  have u: "has_manifest ((Q @ Z) ! e) \<longleftrightarrow> e < length Q"
    using nth_used_unused [OF q z e] .
  show ?case
  proof (cases "c < Suc e \<and> manifest ((Q @ Z) ! e) = None")
    case True
    then have "length Q \<le> e" using u by (simp add: has_manifest_def)
    then have "insert_find_end (Q @ Z) c e = length Q"
      using Suc.IH Suc.prems by simp
    then show ?thesis using True by (subst insert_find_end.simps) simp
  next
    case False
    then have r: "insert_find_end (Q @ Z) c (Suc e) = Suc e"
      by (subst insert_find_end.simps) auto
    have "Suc e \<le> length Q"
    proof (cases "c < Suc e")
      case True
      then have "has_manifest ((Q @ Z) ! e)" using False by (simp add: has_manifest_def)
      then show ?thesis using u by simp
    next
      case False
      then show ?thesis using Suc.prems by simp
    qed
    then show ?thesis using r Suc.prems by simp
  qed
qed

lemma unqueue_list:
  assumes c: "contiguous cq" and i: "i < length cq"
  defines "r \<equiv> unqueue_shift (cq[i := (cq ! i)\<lparr>manifest := None\<rparr>]) i"
  shows "length r = length cq \<and> queued r = take i (queued cq) @ drop (Suc i) (queued cq)
         \<and> contiguous r \<and> \<not> has_manifest (last r)"
proof -
  obtain Z where z: "cq = queued cq @ Z" "\<forall>c \<in> set Z. \<not> has_manifest c"
    using c by (rule contiguous_split)
  let ?Q = "queued cq"
  have q: "\<forall>c \<in> set ?Q. has_manifest c" using queued_all_used by blast
  have len: "length cq = length ?Q + length Z" using z(1) by (metis length_append)
  have z0: "Z = [] \<or> \<not> has_manifest (hd Z)" using z(2) by (cases Z) auto
  have z0': "Z = [] \<or> manifest (hd Z) = None" using z0 by (simp add: has_manifest_def)
  show ?thesis
  proof (cases "i < length ?Q")
    case True
    let ?A = "take i ?Q" and ?U = "drop (Suc i) ?Q"
    let ?h = "(?Q ! i)\<lparr>manifest := None\<rparr>"
    let ?h' = "(last (?h # ?U))\<lparr>manifest := None\<rparr>"
    have "cq = (?A @ ?Q ! i # ?U) @ Z" using z(1) True by (simp add: id_take_nth_drop [symmetric])
    then have cq: "cq = ?A @ ?Q ! i # ?U @ Z" by simp
    have cqi: "cq ! i = ?Q ! i"
    proof -
      have "cq ! i = (?Q @ Z) ! i" using z(1) by simp
      then show ?thesis using True by (simp add: nth_append)
    qed
    have la: "length ?A = i" using True by simp
    have "cq[i := (cq ! i)\<lparr>manifest := None\<rparr>] = (?A @ ?Q ! i # ?U @ Z)[i := ?h]"
      using cq cqi by simp
    also have "\<dots> = ?A @ ?h # ?U @ Z" using la by (simp add: list_update_append)
    finally have upd: "cq[i := (cq ! i)\<lparr>manifest := None\<rparr>] = ?A @ ?h # ?U @ Z" .
    have uU: "\<forall>u \<in> set ?U. manifest u \<noteq> None"
      using q by (auto dest: in_set_dropD simp: has_manifest_def)
    have r: "r = ?A @ ?U @ [?h'] @ Z"
      unfolding r_def upd using la uU z0' by (rule unqueue_shift_append)
    have au: "\<forall>c \<in> set (?A @ ?U). has_manifest c"
      using q by (auto dest: in_set_takeD in_set_dropD)
    have r': "r = (?A @ ?U) @ (?h' # Z)" using r by simp
    have 1: "length r = length cq"
    proof -
      have "length cq = length (?A @ ?Q ! i # ?U @ Z)" using cq by simp
      then show ?thesis unfolding r by simp
    qed
    have 2: "queued r = ?A @ ?U"
      unfolding r' using au by (intro queued_append_unused) (auto simp: hole_unused)
    have 3: "contiguous r"
      unfolding r' using au z(2) by (intro contiguous_append_unused) (auto simp: hole_unused)
    have 4: "\<not> has_manifest (last r)"
    proof (cases Z)
      case Nil
      then show ?thesis unfolding r by (simp add: hole_unused)
    next
      case (Cons a Z')
      then have "last r = last Z" unfolding r by simp
      moreover have "last Z \<in> set Z" using Cons by simp
      ultimately show ?thesis using z(2) by simp
    qed
    show ?thesis using 1 2 3 4 by simp
  next
    case False
    have ui: "\<not> has_manifest (cq ! i)"
    proof -
      have "has_manifest ((?Q @ Z) ! i) \<longleftrightarrow> i < length ?Q"
        using q z(2) i z(1) by (intro nth_used_unused) auto
      then show ?thesis using False z(1) by simp
    qed
    have same: "cq[i := (cq ! i)\<lparr>manifest := None\<rparr>] = cq"
      using hole_id [OF ui] by simp
    have stop: "\<not> (i < length cq - 1 \<and> manifest (cq ! (i + 1)) \<noteq> None)"
    proof
      assume a: "i < length cq - 1 \<and> manifest (cq ! (i + 1)) \<noteq> None"
      then have "i < length cq - 1" by (rule conjunct1)
      then have "i + 1 < length cq" by arith
      then have "i + 1 < length (?Q @ Z)" using len by simp
      then have "has_manifest ((?Q @ Z) ! (i + 1)) \<longleftrightarrow> i + 1 < length ?Q"
        using q z(2) by (intro nth_used_unused) auto
      moreover have "(?Q @ Z) ! (i + 1) = cq ! (i + 1)" using z(1) by simp
      ultimately show False using a False by (simp add: has_manifest_def)
    qed
    have "unqueue_shift cq i = cq[i := (cq ! i)\<lparr>manifest := None\<rparr>]"
      using stop by (rule unqueue_shift_stop)
    then have r: "r = cq" unfolding r_def same .
    have zne: "Z \<noteq> []" using False i len by auto
    then have "last cq = last Z" using z(1) by (metis last_appendR)
    moreover have "last Z \<in> set Z" using zne by simp
    ultimately have 4: "\<not> has_manifest (last r)" using z(2) r by simp
    have 2: "queued r = take i ?Q @ drop (Suc i) ?Q" using False r by simp
    show ?thesis using r c 2 4 by simp
  qed
qed

lemma insert_list:
  assumes c: "contiguous cq" and i: "i < length cq"
    and p: "i = 0 \<or> manifest (cq ! (i - 1)) \<noteq> None"
  defines "e \<equiv> (case manifest (cq ! (length cq - 1)) of Some p \<Rightarrow> length cq - 1
                  | None \<Rightarrow> insert_find_end cq i (length cq - 1))"
  defines "r \<equiv> (insert_shift cq i e)[i := (insert_shift cq i e ! i)\<lparr>manifest := None\<rparr>]"
  shows "length r = length cq \<and> manifest (r ! i) = None
         \<and> (has_manifest x \<longrightarrow>
              queued (r[i := x]) = take (length cq) (take i (queued cq) @ x # drop i (queued cq))
              \<and> contiguous (r[i := x]))"
proof -
  obtain Z where z: "cq = queued cq @ Z" "\<forall>c \<in> set Z. \<not> has_manifest c"
    using c by (rule contiguous_split)
  let ?Q = "queued cq"
  let ?n = "length ?Q"
  have q: "\<forall>c \<in> set ?Q. has_manifest c" using queued_all_used by blast
  have len: "length cq = ?n + length Z" using z(1) by (metis length_append)
  have nth: "has_manifest (cq ! j) \<longleftrightarrow> j < ?n" if "j < length cq" for j
  proof -
    have "has_manifest ((?Q @ Z) ! j) \<longleftrightarrow> j < ?n"
      using q z(2) that len by (intro nth_used_unused) auto
    then show ?thesis using z(1) by simp
  qed
  have i_le: "i \<le> ?n"
  proof (cases "i = 0")
    case False
    then have "has_manifest (cq ! (i - 1))" using p by (simp add: has_manifest_def)
    then have "i - 1 < ?n" using nth [of "i - 1"] i by simp
    then show ?thesis using False by simp
  qed simp
  let ?A = "take i ?Q"
  have la: "length ?A = i" using i_le by simp
  have ne: "cq \<noteq> []" using i by auto
  show ?thesis
  proof (cases "has_manifest (cq ! (length cq - 1))")
    case True
    then have "length cq - 1 < ?n" using nth [of "length cq - 1"] i by simp
    then have "length Z = 0" using len by arith
    then have zn: "Z = []" by simp
    then have full: "?n = length cq" using len by simp
    have "cq = ?Q @ []" using z(1) unfolding zn .
    then have cqQ: "cq = ?Q" by (simp only: append_Nil2)
    have e: "e = length cq - 1" using True unfolding e_def by (auto simp: has_manifest_def)
    let ?M = "butlast (drop i cq)"
    have dne: "drop i cq \<noteq> []" using i by simp
    have "cq = take i cq @ drop i cq" by simp
    also have "drop i cq = ?M @ [last cq]"
      using dne append_butlast_last_id [of "drop i cq"] i by (simp add: last_drop)
    finally have dec: "cq = take i cq @ ?M @ last cq # []" .
    have la': "length (take i cq) = i" using i by simp
    have eM: "e = i + length ?M" using e i by simp
    have "insert_shift (take i cq @ ?M @ last cq # []) i (i + length ?M)
            = take i cq @ hd (?M @ [last cq]) # ?M @ []"
      using la' by (rule insert_shift_append)
    moreover have "hd (?M @ [last cq]) = hd (drop i cq)"
      using dne append_butlast_last_id [of "drop i cq"] i by (simp add: last_drop)
    ultimately have sh: "insert_shift cq i e = take i cq @ hd (drop i cq) # ?M"
      using dec eM by simp
    have r: "r = take i cq @ (hd (drop i cq))\<lparr>manifest := None\<rparr> # ?M"
      unfolding r_def sh using la' by (simp add: list_update_append nth_append)
    have 1: "length r = length cq" unfolding r using i by simp
    have 2: "manifest (r ! i) = None" unfolding r using la' by (simp add: nth_append)
    have rx: "r[i := x] = take i cq @ x # ?M" unfolding r using la' by (simp add: list_update_append)
    have 3: "queued (r[i := x]) = take (length cq) (take i ?Q @ x # drop i ?Q) \<and> contiguous (r[i := x])"
      if x: "has_manifest x"
    proof -
      have all: "\<forall>c \<in> set (take i cq @ x # ?M). has_manifest c"
      proof
        fix c assume "c \<in> set (take i cq @ x # ?M)"
        then have "c = x \<or> c \<in> set cq"
          by (auto dest: in_set_takeD in_set_butlastD in_set_dropD)
        then show "has_manifest c" using x q cqQ by auto
      qed
      have a: "queued ((take i cq @ x # ?M) @ []) = take i cq @ x # ?M"
        using all by (intro queued_append_unused) auto
      have b: "contiguous ((take i cq @ x # ?M) @ [])"
        using all by (intro contiguous_append_unused) auto
      have s: "length cq - i = Suc (length cq - Suc i)" using i by arith
      have "take (length cq) (take i cq @ x # drop i cq) = take i cq @ x # ?M"
        using i by (simp add: butlast_conv_take min_def s)
      then show ?thesis using a b rx cqQ by simp
    qed
    show ?thesis using 1 2 3 by simp
  next
    case False
    then have nl: "\<not> length cq - 1 < ?n" using nth [of "length cq - 1"] i by simp
    then have zne: "Z \<noteq> []" using len i by auto
    have "e = insert_find_end cq i (length cq - 1)"
      using False unfolding e_def by (auto simp: has_manifest_def)
    also have "\<dots> = insert_find_end (?Q @ Z) i (length cq - 1)" using z(1) by simp
    also have "\<dots> = ?n"
      using q z(2) i_le nl len by (intro insert_find_end_contiguous) auto
    finally have e: "e = ?n" .
    let ?M = "drop i ?Q"
    have "?Q @ Z = (?A @ ?M) @ (hd Z # tl Z)" using zne by simp
    with z(1) have "cq = (?A @ ?M) @ (hd Z # tl Z)" by (rule trans)
    then have dec: "cq = ?A @ ?M @ hd Z # tl Z" by (simp only: append_assoc)
    have eM: "e = i + length ?M" using e i_le by simp
    have "insert_shift (?A @ ?M @ hd Z # tl Z) i (i + length ?M) = ?A @ hd (?M @ [hd Z]) # ?M @ tl Z"
      using la by (rule insert_shift_append)
    then have sh: "insert_shift cq i e = ?A @ hd (?M @ [hd Z]) # ?M @ tl Z"
      using dec eM by simp
    have r: "r = ?A @ (hd (?M @ [hd Z]))\<lparr>manifest := None\<rparr> # ?M @ tl Z"
      unfolding r_def sh using la by (simp add: list_update_append nth_append)
    have lcq: "length cq = length (?A @ ?M @ hd Z # tl Z)" using dec by simp
    have 1: "length r = length cq" unfolding r lcq by simp
    have 2: "manifest (r ! i) = None" unfolding r using la by (simp add: nth_append)
    have rx: "r[i := x] = (?A @ x # ?M) @ tl Z" unfolding r using la by (simp add: list_update_append)
    have 3: "queued (r[i := x]) = take (length cq) (take i ?Q @ x # drop i ?Q) \<and> contiguous (r[i := x])"
      if x: "has_manifest x"
    proof -
      have all: "\<forall>c \<in> set (?A @ x # ?M). has_manifest c"
        using x q by (auto dest: in_set_takeD in_set_dropD)
      have tz: "\<forall>c \<in> set (tl Z). \<not> has_manifest c"
        using z(2) zne by (auto dest: list.set_sel(2))
      have tz0: "tl Z = [] \<or> \<not> has_manifest (hd (tl Z))" using tz by (cases "tl Z") auto
      have a: "queued ((?A @ x # ?M) @ tl Z) = ?A @ x # ?M"
        using all tz0 by (rule queued_append_unused)
      have b: "contiguous ((?A @ x # ?M) @ tl Z)"
        using all tz by (rule contiguous_append_unused)
      have "length (?A @ x # ?M) \<le> length cq" unfolding lcq by simp
      then have "take (length cq) (?A @ x # ?M) = ?A @ x # ?M" by (rule take_all)
      then show ?thesis using a b unfolding rx by (simp only: simp_thms)
    qed
    show ?thesis using 1 2 3 by simp
  qed
qed

text \<open>
  C3 as stated fails for \<^verbatim>\<open>rhizome_fetch_insert\<close>: it returns with the element at \<open>i\<close>
  emptied (\<^verbatim>\<open>c->manifest = NULL\<close>) and the former occupants moved up, so on return the
  queue has an empty element followed by used ones. Inserting at 0 into a queue holding two
  candidates leaves element 0 empty and element 1 holding the first candidate.
\<close>

theorem rhizome_fetch_insert_leaves_hole:
  "contiguous (queue_of two_queued 0)
   \<and> (case rhizome_fetch_insert 0 0 two_queued of
        Inl f \<Rightarrow> False
      | Inr s' \<Rightarrow> manifest (queue_of s' 0 ! 0) = None \<and> manifest (queue_of s' 0 ! 1) = Some 1
                 \<and> \<not> contiguous (queue_of s' 0))"
  by code_simp

text \<open>
  C3, amended. On a contiguous queue, with \<open>i\<close> in range:
  \<^item> \<^verbatim>\<open>rhizome_fetch_insert(q, i)\<close> (whose assertion asks that \<open>i\<close> is 0 or follows a used
    element) returns with element \<open>i\<close> empty; once the caller stores a candidate \<open>x\<close> with a
    manifest there, the queue holds the old candidates with \<open>x\<close> inserted at \<open>i\<close> and those
    from \<open>i\<close> on moved right by one, cut to the queue's size (so the tail is dropped when
    the queue was full), and is contiguous again; the manifest of the last element is
    released exactly when the queue was full; the other queues are untouched.
  \<^item> \<^verbatim>\<open>rhizome_fetch_unqueue(q, i)\<close> releases the manifest at \<open>i\<close> (if any), leaves the
    candidates with the one at \<open>i\<close> removed and the following ones moved left by one, the
    last element empty, the queue contiguous, and the other queues untouched.
\<close>

theorem candidate_queue_insert_unqueue:
  assumes q: "q < NQUEUES s" and c: "contiguous (queue_of s q)" and i: "i < length (queue_of s q)"
  shows "(i = 0 \<or> manifest (queue_of s q ! (i - 1)) \<noteq> None \<longrightarrow>
          (\<exists>s'. rhizome_fetch_insert q i s = Inr s'
             \<and> length (queue_of s' q) = length (queue_of s q)
             \<and> manifest (queue_of s' q ! i) = None
             \<and> (\<forall>x. has_manifest x \<longrightarrow>
                   queued ((queue_of s' q)[i := x]) =
                     take (length (queue_of s q))
                       (take i (queued (queue_of s q)) @ x # drop i (queued (queue_of s q)))
                   \<and> contiguous ((queue_of s' q)[i := x]))
             \<and> freed s' = freed s @ (case manifest (last (queue_of s q)) of Some p \<Rightarrow> [p] | None \<Rightarrow> [])
             \<and> (\<forall>q'. q' \<noteq> q \<longrightarrow> queue_of s' q' = queue_of s q')))
       \<and> (\<exists>s'. rhizome_fetch_unqueue q i s = Inr s'
             \<and> length (queue_of s' q) = length (queue_of s q)
             \<and> queued (queue_of s' q) =
                 take i (queued (queue_of s q)) @ drop (Suc i) (queued (queue_of s q))
             \<and> contiguous (queue_of s' q)
             \<and> \<not> has_manifest (last (queue_of s' q))
             \<and> freed s' = freed s @ (case manifest (queue_of s q ! i) of Some p \<Rightarrow> [p] | None \<Rightarrow> [])
             \<and> (\<forall>q'. q' \<noteq> q \<longrightarrow> queue_of s' q' = queue_of s q'))"
proof (intro conjI impI)
  let ?cq = "queue_of s q"
  assume p: "i = 0 \<or> manifest (?cq ! (i - 1)) \<noteq> None"
  define e where "e = (case manifest (?cq ! (length ?cq - 1)) of Some p \<Rightarrow> length ?cq - 1
                  | None \<Rightarrow> insert_find_end ?cq i (length ?cq - 1))"
  define r where "r = (insert_shift ?cq i e)[i := (insert_shift ?cq i e ! i)\<lparr>manifest := None\<rparr>]"
  note L = insert_list [OF c i p, folded e_def, folded r_def]
  have ne: "?cq \<noteq> []" using i by auto
  have lst: "?cq ! (length ?cq - 1) = last ?cq" using ne by (simp add: last_conv_nth)
  show "\<exists>s'. rhizome_fetch_insert q i s = Inr s'
             \<and> length (queue_of s' q) = length ?cq
             \<and> manifest (queue_of s' q ! i) = None
             \<and> (\<forall>x. has_manifest x \<longrightarrow>
                   queued ((queue_of s' q)[i := x]) =
                     take (length ?cq) (take i (queued ?cq) @ x # drop i (queued ?cq))
                   \<and> contiguous ((queue_of s' q)[i := x]))
             \<and> freed s' = freed s @ (case manifest (last ?cq) of Some p \<Rightarrow> [p] | None \<Rightarrow> [])
             \<and> (\<forall>q'. q' \<noteq> q \<longrightarrow> queue_of s' q' = queue_of s q')"
  proof (cases "manifest (last ?cq)")
    case None
    then have e: "e = insert_find_end ?cq i (length ?cq - 1)" unfolding e_def lst by simp
    have "rhizome_fetch_insert q i s = Inr (queue_update q (\<lambda>cq. (insert_shift cq i e)[i := (insert_shift cq i e ! i)\<lparr>manifest := None\<rparr>]) s)"
      using i p None lst e by (simp add: rhizome_fetch_insert_def Let_def)
    moreover have "queue_of (queue_update q (\<lambda>cq. (insert_shift cq i e)[i := (insert_shift cq i e ! i)\<lparr>manifest := None\<rparr>]) s) q = r"
      using q by (simp add: queue_of_queue_update r_def)
    ultimately show ?thesis using L None q
      by (intro exI [of _ "queue_update q (\<lambda>cq. (insert_shift cq i e)[i := (insert_shift cq i e ! i)\<lparr>manifest := None\<rparr>]) s"])
         (simp add: queue_of_queue_update)
  next
    case (Some p')
    then have e: "e = length ?cq - 1" unfolding e_def lst by simp
    have "rhizome_fetch_insert q i s = Inr (queue_update q (\<lambda>cq. (insert_shift cq i e)[i := (insert_shift cq i e ! i)\<lparr>manifest := None\<rparr>]) (rhizome_manifest_free p' s))"
      using i p Some lst e by (simp add: rhizome_fetch_insert_def Let_def)
    moreover have "queue_of (queue_update q (\<lambda>cq. (insert_shift cq i e)[i := (insert_shift cq i e ! i)\<lparr>manifest := None\<rparr>]) (rhizome_manifest_free p' s)) q = r"
      using q by (simp add: queue_of_queue_update r_def)
    ultimately show ?thesis using L Some q
      by (intro exI [of _ "queue_update q (\<lambda>cq. (insert_shift cq i e)[i := (insert_shift cq i e ! i)\<lparr>manifest := None\<rparr>]) (rhizome_manifest_free p' s)"])
         (simp add: queue_of_queue_update)
  qed
next
  let ?cq = "queue_of s q"
  define r where "r = unqueue_shift (?cq[i := (?cq ! i)\<lparr>manifest := None\<rparr>]) i"
  note L = unqueue_list [OF c i, folded r_def]
  let ?s1 = "case manifest (?cq ! i) of Some p \<Rightarrow> rhizome_manifest_free p s | None \<Rightarrow> s"
  let ?s' = "queue_update q (\<lambda>cq. unqueue_shift (cq[i := (cq ! i)\<lparr>manifest := None\<rparr>]) i) ?s1"
  have s1: "queue_of ?s1 q = ?cq" "NQUEUES ?s1 = NQUEUES s"
    "freed ?s1 = freed s @ (case manifest (?cq ! i) of Some p \<Rightarrow> [p] | None \<Rightarrow> [])"
    "\<And>q'. queue_of ?s1 q' = queue_of s q'"
    by (simp_all split: option.split)
  have "rhizome_fetch_unqueue q i s = Inr ?s'"
    using i by (simp add: rhizome_fetch_unqueue_def Let_def)
  moreover have "queue_of ?s' q = r"
    using q s1 by (simp add: queue_of_queue_update r_def)
  moreover have "\<forall>q'. q' \<noteq> q \<longrightarrow> queue_of ?s' q' = queue_of s q'"
    using q s1 by (simp add: queue_of_queue_update)
  moreover have "freed ?s' = freed s @ (case manifest (?cq ! i) of Some p \<Rightarrow> [p] | None \<Rightarrow> [])"
    using s1 by simp
  ultimately show "\<exists>s'. rhizome_fetch_unqueue q i s = Inr s'
             \<and> length (queue_of s' q) = length ?cq
             \<and> queued (queue_of s' q) = take i (queued ?cq) @ drop (Suc i) (queued ?cq)
             \<and> contiguous (queue_of s' q)
             \<and> \<not> has_manifest (last (queue_of s' q))
             \<and> freed s' = freed s @ (case manifest (?cq ! i) of Some p \<Rightarrow> [p] | None \<Rightarrow> [])
             \<and> (\<forall>q'. q' \<noteq> q \<longrightarrow> queue_of s' q' = queue_of s q')"
    using L by (intro exI [of _ ?s']) simp
qed

theorem candidate_queue_insert_unqueue_witness:
  "0 < NQUEUES two_queued \<and> contiguous (queue_of two_queued 0)
   \<and> 0 < length (queue_of two_queued 0)
   \<and> (\<exists>s'. rhizome_fetch_insert 0 0 two_queued = Inr s'
          \<and> contiguous ((queue_of s' 0)[0 := zero_candidate\<lparr>manifest := Some 3\<rparr>]))
   \<and> (\<exists>s'. rhizome_fetch_unqueue 0 0 two_queued = Inr s' \<and> contiguous (queue_of s' 0))"
proof -
  have h: "0 < NQUEUES two_queued" "contiguous (queue_of two_queued 0)"
    "0 < length (queue_of two_queued 0)"
    by code_simp+
  have x: "has_manifest (zero_candidate\<lparr>manifest := Some 3\<rparr>)"
    by (simp add: has_manifest_def)
  note T = candidate_queue_insert_unqueue [OF h]
  have "\<exists>s'. rhizome_fetch_insert 0 0 two_queued = Inr s'
          \<and> contiguous ((queue_of s' 0)[0 := zero_candidate\<lparr>manifest := Some 3\<rparr>])"
    using T x by blast
  moreover have "\<exists>s'. rhizome_fetch_unqueue 0 0 two_queued = Inr s' \<and> contiguous (queue_of s' 0)"
    using T by blast
  ultimately show ?thesis using h by blast
qed

subsection \<open>The manifest version cache\<close>

text \<open>
  C4 as stated fails in one part: no result tells a strictly newer stored version from an
  equal one. With version 5 offered, a store holding version 7 and a store holding version 5
  both give \<^verbatim>\<open>-1\<close> (and a store holding version 4 gives 0).
\<close>

theorem version_cache_lookup_no_newer_result:
  "fst (rhizome_manifest_version_cache_lookup (sample_env [''AB'' \<mapsto> 7]) 1 lookup_example) = - 1
   \<and> fst (rhizome_manifest_version_cache_lookup (sample_env [''AB'' \<mapsto> 5]) 1 lookup_example) = - 1
   \<and> fst (rhizome_manifest_version_cache_lookup (sample_env [''AB'' \<mapsto> 4]) 1 lookup_example) = 0"
  by code_simp


text \<open>
  C4, amended. The result of \<^verbatim>\<open>rhizome_manifest_version_cache_lookup\<close> is decided by the
  manifest and the backing store alone: \<^verbatim>\<open>-1\<close> when the manifest has no id field, when the
  query fails, or when the stored version (\<^verbatim>\<open>-1\<close> when the store has no row) is greater
  than or equal to the manifest's version; 0 otherwise. It is never \<^verbatim>\<open>-2\<close>: equal and
  newer stored versions are not told apart.
\<close>

theorem version_cache_lookup_store_only:
  "fst (rhizome_manifest_version_cache_lookup env m s) =
     (case var_id (heap s m) of
        None \<Rightarrow> - 1
      | Some id0 \<Rightarrow>
          (case fst (sqlite_exec_int64 env (Select_manifest_version (str_toupper_inplace id0)) (world s)) of
             (ret, val) \<Rightarrow>
               if ret = - 1 \<or> var_version (heap s m) \<le> (case val of Some v \<Rightarrow> v | None \<Rightarrow> - 1)
               then - 1 else 0))
   \<and> fst (rhizome_manifest_version_cache_lookup env m s) \<noteq> - 2"
proof -
  have r: "fst (rhizome_manifest_version_cache_lookup env m s) =
     (case var_id (heap s m) of
        None \<Rightarrow> - 1
      | Some id0 \<Rightarrow>
          (case fst (sqlite_exec_int64 env (Select_manifest_version (str_toupper_inplace id0)) (world s)) of
             (ret, val) \<Rightarrow>
               if ret = - 1 \<or> var_version (heap s m) \<le> (case val of Some v \<Rightarrow> v | None \<Rightarrow> - 1)
               then - 1 else 0))"
    by (auto simp: rhizome_manifest_version_cache_lookup_def WHY_def ext_def Let_def
        split: option.split prod.split)
  show ?thesis
    unfolding r by (simp split: option.split prod.split)
qed


subsection \<open>The ignore cache\<close>



lemma memcmp_eq_take [simp]: "memcmp_eq (take 32 b) b 32"
  by (simp add: memcmp_eq_def)








subsection \<open>Starting a fetch\<close>

lemma owh_refl [simp]: "only_world_heap_changed s s"
  by (simp add: only_world_heap_changed_def)

lemma owh_trans:
  "only_world_heap_changed s s1 \<Longrightarrow> only_world_heap_changed s1 s2 \<Longrightarrow> only_world_heap_changed s s2"
  by (simp add: only_world_heap_changed_def)

lemma owh_ext: "ext f s = (r, s1) \<Longrightarrow> only_world_heap_changed s s1"
  by (auto simp: ext_def only_world_heap_changed_def split: prod.splits)

lemma owh_lookup:
  "rhizome_manifest_version_cache_lookup env m s = (r, s1) \<Longrightarrow> only_world_heap_changed s s1"
  by (auto simp: rhizome_manifest_version_cache_lookup_def Let_def ext_def only_world_heap_changed_def
      split: option.splits prod.splits if_splits)

lemma owh_import:
  "rhizome_import_received_bundle env m s = (r, s1) \<Longrightarrow> only_world_heap_changed s s1"
  by (auto simp: rhizome_import_received_bundle_def Let_def ext_def only_world_heap_changed_def
      split: prod.splits)

lemma fetch_start_results:
  "rhizome_fetch_start close env k m peerip peersid s = Inr (res, s') \<Longrightarrow>
   res = STARTED \<or> res = FETCH_ERROR"
  by (auto simp: rhizome_fetch_start_def Let_def bindf_eq_Inr split: if_splits option.splits)

lemma same_bundle_scan_results:
  "same_bundle_scan s m ks = Inr (Some res) \<Longrightarrow>
   res = OLDERBUNDLE \<or> res = NEWERBUNDLE \<or> res = SAMEBUNDLE"
  by (induction ks) (auto split: if_splits option.splits)


text \<open>
  C10. Whenever \<^verbatim>\<open>rhizome_fetch\<close> returns a result other than \<open>STARTED\<close> and other than the
  error result \<^verbatim>\<open>-1\<close>, the result is one of \<open>SLOTBUSY\<close>, \<open>IMPORTED\<close>, \<open>SUPERSEDED\<close>,
  \<open>SAMEBUNDLE\<close>, \<open>OLDERBUNDLE\<close>, \<open>NEWERBUNDLE\<close>, \<open>SAMEPAYLOAD\<close>, and nothing but the outside
  world and the contents of manifests has changed: every slot and every queue is as before
  (so a free slot is still free, no slot field was written and the manifest was stored
  nowhere) and no manifest was released. This holds whatever runs in place of
  \<^verbatim>\<open>rhizome_fetch_close\<close>.
\<close>

theorem rhizome_fetch_leaves_slot:
  assumes "rhizome_fetch close env k m peerip peersid s = Inr (res, s')"
    and "res \<noteq> STARTED" and "res \<noteq> FETCH_ERROR"
  shows "only_world_heap_changed s s'
         \<and> rhizome_fetch_queues s' = rhizome_fetch_queues s \<and> freed s' = freed s
         \<and> res \<in> {SLOTBUSY, IMPORTED, SUPERSEDED, SAMEBUNDLE, OLDERBUNDLE, NEWERBUNDLE, SAMEPAYLOAD}"
proof -
  have "only_world_heap_changed s s'
     \<and> res \<in> {SLOTBUSY, IMPORTED, SUPERSEDED, SAMEBUNDLE, OLDERBUNDLE, NEWERBUNDLE, SAMEPAYLOAD}"
  proof (cases "state (slot_of s k) \<noteq> RHIZOME_FETCH_FREE")
    case True
    then show ?thesis using assms(1) by (simp add: rhizome_fetch_def)
  next
    case free: False
    show ?thesis
    proof (cases "fileLength (heap s m) = 0")
      case True
      obtain r s1 where i: "rhizome_import_received_bundle env m s = (r, s1)"
        by (cases "rhizome_import_received_bundle env m s")
      then show ?thesis
        using assms free True owh_import [OF i]
        by (auto simp: rhizome_fetch_def split: if_splits)
    next
      case len: False
      obtain r s1 where l: "rhizome_manifest_version_cache_lookup env m s = (r, s1)"
        by (cases "rhizome_manifest_version_cache_lookup env m s")
      note f1 = owh_lookup [OF l]
      show ?thesis
      proof (cases "r \<noteq> 0")
        case True
        then show ?thesis using assms free len l f1 by (auto simp: rhizome_fetch_def)
      next
        case r0: False
        then obtain found where sb: "same_bundle_scan s1 m [0..<NQUEUES s1] = Inr found"
          using assms(1) free len l by (auto simp: rhizome_fetch_def bindf_eq_Inr)
        show ?thesis
        proof (cases found)
          case (Some res')
          then have "res = res' \<and> s' = s1"
            using assms(1) free len l r0 sb by (auto simp: rhizome_fetch_def)
          then show ?thesis
            using same_bundle_scan_results [of s1 m "[0..<NQUEUES s1]" res'] sb Some f1 by auto
        next
          case None
          obtain ret val s2 where q: "ext (sqlite_exec_int64 env (Select_file_count (fileHexHash (heap s1 m)))) s1 = ((ret, val), s2)"
            by (metis prod.exhaust)
          note f2 = owh_trans [OF f1 owh_ext [OF q]]
          obtain r3 s3 where a: "ext (rhizome_add_manifest env (heap s2 m) (ttl (heap s2 m) - 1)) s2 = (r3, s3)"
            by (metis prod.exhaust)
          note f3 = owh_trans [OF f2 owh_ext [OF a]]
          have body: "(if \<not> fileHashedP (heap s1 m) then Inr (FETCH_ERROR, s1)
                else case ext (sqlite_exec_int64 env (Select_file_count (fileHexHash (heap s1 m)))) s1 of
                  ((ret, val), s2) \<Rightarrow>
                    if ret \<noteq> 1 then Inr (FETCH_ERROR, s2)
                    else if (case val of Some g \<Rightarrow> g | None \<Rightarrow> 0) \<noteq> 0 then
                      (case ext (rhizome_add_manifest env (heap s2 m) (ttl (heap s2 m) - 1)) s2 of
                         (r, s3) \<Rightarrow> if r = - 1 then Inr (FETCH_ERROR, s3) else Inr (IMPORTED, s3))
                    else bindf (same_payload_scan s2 m [0..<NQUEUES s2])
                           (\<lambda>same. if same then Inr (SAMEPAYLOAD, s2)
                                   else rhizome_fetch_start close env k m peerip peersid s2))
               = Inr (res, s')"
            using assms(1) free len r0
            unfolding rhizome_fetch_def l prod.case by (simp add: sb None)
          show ?thesis
          proof (cases "fileHashedP (heap s1 m)")
            case False
            then show ?thesis using body assms(3) by simp
          next
            case True
            then have rest: "(if ret \<noteq> 1 then Inr (FETCH_ERROR, s2)
                 else if (case val of Some g \<Rightarrow> g | None \<Rightarrow> 0) \<noteq> 0 then
                   (case ext (rhizome_add_manifest env (heap s2 m) (ttl (heap s2 m) - 1)) s2 of
                      (r, s3) \<Rightarrow> if r = - 1 then Inr (FETCH_ERROR, s3) else Inr (IMPORTED, s3))
                 else bindf (same_payload_scan s2 m [0..<NQUEUES s2])
                        (\<lambda>same. if same then Inr (SAMEPAYLOAD, s2)
                                else rhizome_fetch_start close env k m peerip peersid s2)) = Inr (res, s')"
              using body by (simp add: q)
            show ?thesis
            proof (cases "ret \<noteq> 1")
              case True
              then show ?thesis using rest assms(3) by simp
            next
              case ret1: False
              show ?thesis
              proof (cases "(case val of Some g \<Rightarrow> g | None \<Rightarrow> 0) \<noteq> 0")
                case True
                then show ?thesis
                  using rest ret1 a f3 assms(3) by (auto split: if_splits)
              next
                case False
                then show ?thesis
                  using rest ret1 f2 assms(2,3)
                    fetch_start_results [of close env k m peerip peersid s2 res s']
                  by (auto simp: bindf_eq_Inr split: if_splits)
              qed
            qed
          qed
        qed
      qed
    qed
  qed
  then show ?thesis by (simp add: only_world_heap_changed_def)
qed

theorem rhizome_fetch_leaves_slot_witness:
  "(case rhizome_fetch (rhizome_fetch_close 3 (sample_env [''AB'' \<mapsto> 5]))
           (sample_env [''AB'' \<mapsto> 5]) 0 1 sample_peer (replicate 32 9) one_queued of
      Inl f \<Rightarrow> False
    | Inr (res, s') \<Rightarrow>
        res = SUPERSEDED \<and> rhizome_fetch_queues s' = rhizome_fetch_queues one_queued
        \<and> freed s' = freed one_queued)"
proof -
  let ?r = "rhizome_fetch (rhizome_fetch_close 3 (sample_env [''AB'' \<mapsto> 5]))
              (sample_env [''AB'' \<mapsto> 5]) 0 1 sample_peer (replicate 32 9) one_queued"
  have "case ?r of Inl f \<Rightarrow> False | Inr (res, s') \<Rightarrow> res = SUPERSEDED"
    by code_simp
  then obtain s' where eq: "?r = Inr (SUPERSEDED, s')"
    by (cases ?r) auto
  have "rhizome_fetch_queues s' = rhizome_fetch_queues one_queued \<and> freed s' = freed one_queued"
    using rhizome_fetch_leaves_slot [OF eq] by simp
  then show ?thesis unfolding eq by simp
qed

subsection \<open>The activation tick\<close>

lemma start_next_loop_none:
  "\<not> (i < length (queue_of s q) \<and> manifest (queue_of s q ! i) \<noteq> None) \<Longrightarrow>
   start_next_loop (Suc n) close env k q i s =
     (if q = 0 then Inr s else start_next_loop n close env k (q - 1) 0 s)"
  by auto


lemma unqueue_cleared:
  assumes "q < NQUEUES s" "i < length (queue_of s q)"
  shows "\<exists>s2. rhizome_fetch_unqueue q i (queue_update q (\<lambda>cq. cq[i := (cq ! i)\<lparr>manifest := None\<rparr>]) s) = Inr s2
           \<and> freed s2 = freed s"
  using assms by (simp add: rhizome_fetch_unqueue_def Let_def queue_of_queue_update)

lemma unqueue_frees:
  assumes "i < length (queue_of s q)" "manifest (queue_of s q ! i) = Some p"
  shows "\<exists>s2. rhizome_fetch_unqueue q i s = Inr s2 \<and> freed s2 = freed s @ [p]"
  using assms by (simp add: rhizome_fetch_unqueue_def Let_def)


text \<open>
  C2 as stated fails in its order: the tick serves the slots from the smallest-threshold
  queue to the largest. With one candidate in queue 0 and every slot free, the code starts
  the fetch in slot 0 and leaves slot 4 free; serving the largest queue first would start
  it in slot 4.
\<close>

theorem start_next_smallest_first:
  "(case rhizome_start_next_queued_fetches 6 (sample_env Map.empty) one_queued of
      Inl f \<Rightarrow> False
    | Inr s \<Rightarrow> state (slot_of s 0) = RHIZOME_FETCH_CONNECTING
              \<and> state (slot_of s 4) = RHIZOME_FETCH_FREE)
   \<and> (case spec_start_next_largest_first 6 (sample_env Map.empty) one_queued of
      Inl f \<Rightarrow> False
    | Inr s \<Rightarrow> state (slot_of s 4) = RHIZOME_FETCH_CONNECTING
              \<and> state (slot_of s 0) = RHIZOME_FETCH_FREE)"
  by code_simp

text \<open>
  C2, amended. On each activation tick the dispatcher calls
  \<^verbatim>\<open>rhizome_start_next_queued_fetch\<close> on every slot in order from the smallest-threshold
  queue (index 0) to the largest (index 4). Each call starts at position 0 of the slot's own
  queue; where there is no candidate it moves on to the next smaller queue and returns after
  queue 0. For a candidate at position \<open>i\<close> it calls \<^verbatim>\<open>rhizome_fetch\<close>: \<open>STARTED\<close> clears
  the element's pointer and unqueues it (the manifest is not released: the slot owns it)
  and ends the call; \<open>SLOTBUSY\<close> ends the call; \<open>OLDERBUNDLE\<close> leaves the candidate and goes
  on with position \<open>i + 1\<close>; every other result unqueues the candidate (releasing its
  manifest) and goes on at the same position.
\<close>

theorem start_next_dispatch:
  "(NQUEUES s = 5 \<longrightarrow>
      rhizome_start_next_queued_fetches n env s =
        bindf (rhizome_start_next_queued_fetch n env 0 s) (\<lambda>s.
        bindf (rhizome_start_next_queued_fetch n env 1 s) (\<lambda>s.
        bindf (rhizome_start_next_queued_fetch n env 2 s) (\<lambda>s.
        bindf (rhizome_start_next_queued_fetch n env 3 s) (\<lambda>s.
        rhizome_start_next_queued_fetch n env 4 s)))))
   \<and> rhizome_start_next_queued_fetch n env k s =
        start_next_loop n (rhizome_fetch_close n env) env k k 0 s
   \<and> (\<not> (i < length (queue_of s q) \<and> manifest (queue_of s q ! i) \<noteq> None) \<longrightarrow>
        start_next_loop (Suc n) close env k q i s =
          (if q = 0 then Inr s else start_next_loop n close env k (q - 1) 0 s))
   \<and> (i < length (queue_of s q) \<and> manifest (queue_of s q ! i) = Some m
        \<and> rhizome_fetch close env k m (peer_ipandport (queue_of s q ! i))
              (peer_sid (queue_of s q ! i)) s = Inr (res, s1) \<longrightarrow>
        start_next_loop (Suc n) close env k q i s =
          (if res = STARTED then
             rhizome_fetch_unqueue q i
               (queue_update q (\<lambda>cq. cq[i := (cq ! i)\<lparr>manifest := None\<rparr>]) s1)
           else if res = SLOTBUSY then Inr s1
           else if res = OLDERBUNDLE then start_next_loop n close env k q (i + 1) s1
           else bindf (rhizome_fetch_unqueue q i s1) (start_next_loop n close env k q i)))
   \<and> (q < NQUEUES s1 \<and> i < length (queue_of s1 q) \<longrightarrow>
        (\<exists>s2. rhizome_fetch_unqueue q i
                 (queue_update q (\<lambda>cq. cq[i := (cq ! i)\<lparr>manifest := None\<rparr>]) s1) = Inr s2
              \<and> freed s2 = freed s1))
   \<and> (i < length (queue_of s1 q) \<and> manifest (queue_of s1 q ! i) = Some m \<longrightarrow>
        (\<exists>s2. rhizome_fetch_unqueue q i s1 = Inr s2 \<and> freed s2 = freed s1 @ [m]))"
proof (intro conjI impI)
  assume "NQUEUES s = 5"
  then have "[0..<NQUEUES s] = [0, 1, 2, 3, 4]" by (simp add: upt_rec)
  then show "rhizome_start_next_queued_fetches n env s =
        bindf (rhizome_start_next_queued_fetch n env 0 s) (\<lambda>s.
        bindf (rhizome_start_next_queued_fetch n env 1 s) (\<lambda>s.
        bindf (rhizome_start_next_queued_fetch n env 2 s) (\<lambda>s.
        bindf (rhizome_start_next_queued_fetch n env 3 s) (\<lambda>s.
        rhizome_start_next_queued_fetch n env 4 s))))"
    unfolding rhizome_start_next_queued_fetches_def
    by (simp add: bindf_def split: sum.split)
next
  show "rhizome_start_next_queued_fetch n env k s =
        start_next_loop n (rhizome_fetch_close n env) env k k 0 s"
    by (simp add: rhizome_start_next_queued_fetch_def)
next
  assume "\<not> (i < length (queue_of s q) \<and> manifest (queue_of s q ! i) \<noteq> None)"
  then show "start_next_loop (Suc n) close env k q i s =
          (if q = 0 then Inr s else start_next_loop n close env k (q - 1) 0 s)"
    by (rule start_next_loop_none)
next
  assume a: "i < length (queue_of s q) \<and> manifest (queue_of s q ! i) = Some m
        \<and> rhizome_fetch close env k m (peer_ipandport (queue_of s q ! i))
              (peer_sid (queue_of s q ! i)) s = Inr (res, s1)"
  show "start_next_loop (Suc n) close env k q i s =
          (if res = STARTED then
             rhizome_fetch_unqueue q i
               (queue_update q (\<lambda>cq. cq[i := (cq ! i)\<lparr>manifest := None\<rparr>]) s1)
           else if res = SLOTBUSY then Inr s1
           else if res = OLDERBUNDLE then start_next_loop n close env k q (i + 1) s1
           else bindf (rhizome_fetch_unqueue q i s1) (start_next_loop n close env k q i))"
    using a by (cases res) simp_all
next
  assume "q < NQUEUES s1 \<and> i < length (queue_of s1 q)"
  then show "\<exists>s2. rhizome_fetch_unqueue q i
                 (queue_update q (\<lambda>cq. cq[i := (cq ! i)\<lparr>manifest := None\<rparr>]) s1) = Inr s2
              \<and> freed s2 = freed s1"
    using unqueue_cleared by blast
next
  assume "i < length (queue_of s1 q) \<and> manifest (queue_of s1 q ! i) = Some m"
  then show "\<exists>s2. rhizome_fetch_unqueue q i s1 = Inr s2 \<and> freed s2 = freed s1 @ [m]"
    using unqueue_frees by blast
qed

theorem start_next_dispatch_witness:
  "NQUEUES one_queued = 5
   \<and> rhizome_start_next_queued_fetches 6 (sample_env Map.empty) one_queued =
        bindf (rhizome_start_next_queued_fetch 6 (sample_env Map.empty) 0 one_queued) (\<lambda>s.
        bindf (rhizome_start_next_queued_fetch 6 (sample_env Map.empty) 1 s) (\<lambda>s.
        bindf (rhizome_start_next_queued_fetch 6 (sample_env Map.empty) 2 s) (\<lambda>s.
        bindf (rhizome_start_next_queued_fetch 6 (sample_env Map.empty) 3 s) (\<lambda>s.
        rhizome_start_next_queued_fetch 6 (sample_env Map.empty) 4 s))))
   \<and> start_next_loop 6 (rhizome_fetch_close 6 (sample_env Map.empty)) (sample_env Map.empty) 4 4 0
        (initial_state 0 (\<lambda>p. zero_manifest)) =
      start_next_loop 5 (rhizome_fetch_close 6 (sample_env Map.empty)) (sample_env Map.empty) 4 3 0
        (initial_state 0 (\<lambda>p. zero_manifest))"
proof -
  have n: "NQUEUES one_queued = 5" by code_simp
  have e: "\<not> (0 < length (queue_of (initial_state (0::int) (\<lambda>p. zero_manifest)) 4)
             \<and> manifest (queue_of (initial_state (0::int) (\<lambda>p. zero_manifest)) 4 ! 0) \<noteq> None)"
    by code_simp
  note T = start_next_dispatch [where s = one_queued and n = 6 and env = "sample_env Map.empty"]
  note U = start_next_dispatch [where s = "initial_state (0::int) (\<lambda>p. zero_manifest)"
             and i = 0 and q = 4 and n = 5 and k = 4
             and close = "rhizome_fetch_close 6 (sample_env Map.empty)"
             and env = "sample_env Map.empty"]
  have 1: "rhizome_start_next_queued_fetches 6 (sample_env Map.empty) one_queued =
        bindf (rhizome_start_next_queued_fetch 6 (sample_env Map.empty) 0 one_queued) (\<lambda>s.
        bindf (rhizome_start_next_queued_fetch 6 (sample_env Map.empty) 1 s) (\<lambda>s.
        bindf (rhizome_start_next_queued_fetch 6 (sample_env Map.empty) 2 s) (\<lambda>s.
        bindf (rhizome_start_next_queued_fetch 6 (sample_env Map.empty) 3 s) (\<lambda>s.
        rhizome_start_next_queued_fetch 6 (sample_env Map.empty) 4 s))))"
    using T n by blast
  have 2: "start_next_loop (Suc 5) (rhizome_fetch_close 6 (sample_env Map.empty)) (sample_env Map.empty) 4 4 0
        (initial_state 0 (\<lambda>p. zero_manifest)) =
      (if (4::nat) = 0 then Inr (initial_state 0 (\<lambda>p. zero_manifest))
       else start_next_loop 5 (rhizome_fetch_close 6 (sample_env Map.empty)) (sample_env Map.empty) 4 (4 - 1) 0
        (initial_state 0 (\<lambda>p. zero_manifest)))"
    using U e by blast
  have 3: "Suc 5 = 6" by simp
  show ?thesis using n 1 2 unfolding 3 by simp
qed


subsection \<open>Facts about the sample states\<close>








subsection \<open>Closing a slot\<close>








subsection \<open>Block requests\<close>

lemma write_uint_length [simp]:
  "length (write_uint64 v) = 8" "length (write_uint32 w) = 4" "length (write_uint16 x) = 2"
  by (simp_all add: write_uint64_def write_uint32_def write_uint16_def)


lemma requestblocks_frame_nexttx [simp]:
  "requestblocks_frame env (sl\<lparr>mdpNextTX := x\<rparr>) = requestblocks_frame env sl"
  by (simp add: requestblocks_frame_def)






subsection \<open>The search of the queues terminates\<close>


lemma unqueue_shift_length [simp]: "length (unqueue_shift cq c) = length cq"
proof (induction cq c rule: unqueue_shift.induct)
  case (1 cq c)
  show ?case
  proof (cases "c < length cq - 1 \<and> manifest (cq ! (c + 1)) \<noteq> None")
    case True
    then have "unqueue_shift cq c = unqueue_shift (cq[c := cq ! (c + 1)]) (c + 1)"
      using unqueue_shift.simps [of cq c] by auto
    then show ?thesis using 1 [OF True] by simp
  next
    case False
    then have "unqueue_shift cq c = cq[c := (cq ! c)\<lparr>manifest := None\<rparr>]"
      using unqueue_shift.simps [of cq c] by auto
    then show ?thesis by simp
  qed
qed






subsection \<open>Suggesting a manifest that is queued already\<close>




















subsection \<open>Received content\<close>















end
